theory Spec2Isabelle
  imports Main
begin

section \<open>Data model of \<^verbatim>\<open>claws/__main__.py\<close>\<close>

text \<open>
  The program drives declaratively configured state machines against an HTTP service.
  Python dictionaries with string keys whose order of insertion matters (request bodies,
  credentials) are association lists; \<^verbatim>\<open>d[k] = v\<close> keeps the position of a key that is
  already present and appends a new key at the end.
\<close>

type_synonym dict = "(string \<times> string) list"

fun setitem :: "string \<Rightarrow> string \<Rightarrow> dict \<Rightarrow> dict" where
  "setitem k v [] = [(k, v)]"
| "setitem k v (p # ps) = (if fst p = k then (k, v) # ps else p # setitem k v ps)"

text \<open>\<^verbatim>\<open>d.update(c)\<close>: every item of \<open>c\<close>, in order, is stored into \<open>d\<close>.\<close>

fun dict_update :: "dict \<Rightarrow> dict \<Rightarrow> dict" where
  "dict_update d [] = d"
| "dict_update d ((k, v) # c) = dict_update (setitem k v d) c"

text \<open>
  The HTTP verb of a task. The source stores a string and selects the session's method of
  that name with \<^verbatim>\<open>getattr(self.session, task["method"].lower())\<close>; the model covers the
  verbs for which an aiohttp session has a method. The field is \<open>http_method\<close> here.
\<close>

datatype verb = GET | POST | PUT | DELETE | HEAD | OPTIONS | PATCH

text \<open>
  Dictionaries are objects: the body of a request and the credentials are reached through
  references, several tasks may hold the same body, and line 24 updates a body in place.
  So the dictionaries live in a store and are named by their addresses.
\<close>

type_synonym ref = nat

text \<open>
  \<^verbatim>\<open>task["params"]\<close>: the keyword arguments of the request. Only the key \<^verbatim>\<open>"data"\<close> is
  inspected by the program; it is absent (\<open>None\<close>) or refers to a dictionary.
\<close>

record params =
  data :: "ref option"

record task =
  name :: string
  http_method :: verb
  url :: string
  params :: "params option"

text \<open>
  A transition: \<^verbatim>\<open>condition\<close> is a callable on the status (an integer, or \<^verbatim>\<open>None\<close>),
  \<^verbatim>\<open>terminate\<close> is an optional key read with \<^verbatim>\<open>transition.get("terminate", False)\<close>.
\<close>

record transition =
  condition :: "int option \<Rightarrow> bool"
  next_state :: string
  terminate :: "bool option"

definition get_terminate :: "transition \<Rightarrow> bool" where
  "get_terminate tr = (case terminate tr of None \<Rightarrow> False | Some b \<Rightarrow> b)"

text \<open>
  Task dictionaries are objects too, shared by every worker through the one
  configuration: a state's task list holds their addresses in a store of tasks. The lists
  and the mapping of states are never assigned to by the program: the configuration
  itself is a value.
\<close>

record state_config =
  tasks :: "ref list"
  transitions :: "transition list"

record config =
  initial_state :: "string option"
  states :: "string \<rightharpoonup> state_config"

record MetricRecord =
  m_state :: string
  m_task :: string
  m_status :: "int option"
  m_response_time :: int
  m_error :: "string option"

text \<open>
  \<^verbatim>\<open>class MetricsCollector\<close>. Its list of records is called \<^verbatim>\<open>metrics\<close> in the source;
  here it is \<open>all_metrics\<close>, since a worker has a field \<^verbatim>\<open>metrics\<close> as well.
\<close>

record MetricsCollector =
  running :: bool
  all_metrics :: "MetricRecord list"

definition MetricsCollector_init :: MetricsCollector where
  "MetricsCollector_init = \<lparr>running = True, all_metrics = []\<rparr>"

definition stop :: "MetricsCollector \<Rightarrow> MetricsCollector" where
  "stop c = c\<lparr>running := False\<rparr>"

definition add_metrics :: "MetricsCollector \<Rightarrow> MetricRecord list \<Rightarrow> MetricsCollector" where
  "add_metrics c new_metrics = c\<lparr>all_metrics := all_metrics c @ new_metrics\<rparr>"

text \<open>
  \<^verbatim>\<open>class StateMachine\<close>: the fields a worker owns. The queue is the worker's own list, of
  references to credentials that all workers share. Its \<^verbatim>\<open>session\<close>, \<^verbatim>\<open>config\<close> and
  \<^verbatim>\<open>collector\<close> are references to objects shared with every other worker; they are
  the configuration and the record \<open>shared\<close> below.
\<close>

record StateMachine =
  credentials :: "ref list"
  current_credential :: "ref option"
  state :: string
  metrics :: "MetricRecord list"

definition StateMachine_init :: "config \<Rightarrow> ref list \<Rightarrow> StateMachine" where
  "StateMachine_init cfg creds =
     \<lparr>credentials = creds,
      current_credential = None,
      state = (case initial_state cfg of None \<Rightarrow> ''INITIAL'' | Some s \<Rightarrow> s),
      metrics = []\<rparr>"

subsection \<open>The environment\<close>

text \<open>
  What the program does not decide: the outcome of each request, the readings of
  \<^verbatim>\<open>time.monotonic()\<close> (in clock units), and the arrival of the interrupt signal whose
  handler is \<^verbatim>\<open>collector.stop\<close>. A request is answered with a status, or it fails with an
  \<^verbatim>\<open>aiohttp.ClientError\<close>, or it raises an exception of another class (the session's
  total timeout raises \<^verbatim>\<open>asyncio.TimeoutError\<close>); the string is the exception's text. The
  signal is only ever noticed when the program reads \<^verbatim>\<open>collector.running\<close>, so its
  arrival is indexed by those reads. A request carries the body as it is when the request
  is made.
\<close>

datatype outcome = Response int | ClientError string | OtherError string

record request =
  r_method :: verb
  r_url :: string
  r_data :: "dict option"

record world =
  http :: "nat \<Rightarrow> request \<Rightarrow> outcome"
  clock :: "nat \<Rightarrow> int"
  sigint :: "nat \<Rightarrow> bool"

record shared =
  task_store :: "ref \<Rightarrow> task"
  heap :: "ref \<Rightarrow> dict"
  collector :: MetricsCollector
  sent :: "request list"
  clock_reads :: nat
  flag_reads :: nat

text \<open>
  Reading \<^verbatim>\<open>self.collector.running\<close>: a signal that has arrived since the last read has
  run \<^verbatim>\<open>stop\<close> by now.
\<close>

definition observe_running :: "world \<Rightarrow> shared \<Rightarrow> bool \<times> shared" where
  "observe_running w sh =
     (let c = (if sigint w (flag_reads sh) then stop (collector sh) else collector sh)
      in (running c, sh\<lparr>collector := c, flag_reads := Suc (flag_reads sh)\<rparr>))"

definition monotonic :: "world \<Rightarrow> shared \<Rightarrow> int \<times> shared" where
  "monotonic w sh = (clock w (clock_reads sh), sh\<lparr>clock_reads := Suc (clock_reads sh)\<rparr>)"

section \<open>The worker\<close>

text \<open>
  \<^verbatim>\<open>StateMachine.execute_task\<close>, in two parts: up to the point where the request is made and
  the worker waits for the answer (lines 19 to 26), and from the answer on (lines 27 to
  45).

  Lines 22 to 24: the credential is merged when it is truthy (not \<^verbatim>\<open>None\<close>, not an empty
  dictionary) and the task's parameters have a body; the merge is an in-place \<^verbatim>\<open>update\<close> of
  the dictionary that the body refers to. The request goes out with the body as it is
  then; a task without \<^verbatim>\<open>"params"\<close> or without \<^verbatim>\<open>"data"\<close> sends none.
\<close>

definition merge_credential :: "StateMachine \<Rightarrow> task \<Rightarrow> (ref \<Rightarrow> dict) \<Rightarrow> (ref \<Rightarrow> dict)" where
  "merge_credential self t h =
     (case (current_credential self, params t) of
        (Some c, Some p) \<Rightarrow>
          (case data p of
             Some d \<Rightarrow> if h c \<noteq> [] then h(d := dict_update (h d) (h c)) else h
           | None \<Rightarrow> h)
      | _ \<Rightarrow> h)"

definition request_of :: "task \<Rightarrow> (ref \<Rightarrow> dict) \<Rightarrow> request" where
  "request_of t h =
     \<lparr>r_method = http_method t, r_url = url t,
      r_data = (case params t of None \<Rightarrow> None | Some p \<Rightarrow> map_option h (data p))\<rparr>"

text \<open>
  \<open>begin_task\<close> gives the start time, the outcome that the environment has for this
  request (the requests are numbered in the order in which they are made), and the shared
  state with the body merged and the request logged.
\<close>

definition begin_task ::
  "world \<Rightarrow> ref \<Rightarrow> shared \<times> StateMachine \<Rightarrow> int \<times> outcome \<times> shared" where
  "begin_task w r = (\<lambda>(sh, self).
     let (start_time, sh1) = monotonic w sh;
         t = task_store sh1 r;
         h = merge_credential self t (heap sh1);
         req = request_of t h
     in (start_time, http w (length (sent sh1)) req,
         sh1\<lparr>heap := h, sent := sent sh1 @ [req]\<rparr>))"

text \<open>
  The answer: a response and a client error are recorded and give the result (the status,
  or \<^verbatim>\<open>None\<close>). Any other exception is not caught by line 36: it leaves
  \<^verbatim>\<open>execute_task\<close> with no record made (\<open>Inl\<close>, with the exception's text and the state as
  it is then).
\<close>

type_synonym raised = "string \<times> shared \<times> StateMachine"

definition end_task ::
  "world \<Rightarrow> ref \<Rightarrow> int \<Rightarrow> outcome \<Rightarrow> shared \<times> StateMachine \<Rightarrow>
   raised + int option \<times> shared \<times> StateMachine" where
  "end_task w r start_time out = (\<lambda>(sh, self).
     case out of
       Response st \<Rightarrow>
         (let (end_time, sh1) = monotonic w sh
          in Inr (Some st, sh1,
               self\<lparr>metrics := metrics self @
                 [\<lparr>m_state = state self, m_task = name (task_store sh r), m_status = Some st,
                   m_response_time = end_time - start_time, m_error = None\<rparr>]\<rparr>))
     | ClientError msg \<Rightarrow>
         (let (end_time, sh1) = monotonic w sh
          in Inr (None, sh1,
               self\<lparr>metrics := metrics self @
                 [\<lparr>m_state = state self, m_task = name (task_store sh r), m_status = None,
                   m_response_time = end_time - start_time, m_error = Some msg\<rparr>]\<rparr>))
     | OtherError e \<Rightarrow> Inl (e, sh, self))"

text \<open>A worker on its own gets the answer at once.\<close>

definition execute_task ::
  "world \<Rightarrow> ref \<Rightarrow> shared \<times> StateMachine \<Rightarrow> raised + int option \<times> shared \<times> StateMachine" where
  "execute_task w r = (\<lambda>(sh, self).
     let (start_time, out, sh1) = begin_task w r (sh, self)
     in end_task w r start_time out (sh1, self))"

text \<open>
  The loop over a state's transitions (lines 61 to 69): the first transition whose
  condition holds sets the state; it ends the run when flagged, and otherwise leaves the
  loop over the tasks. When none holds, the loop's \<^verbatim>\<open>else\<close> continues with the next task.
\<close>

datatype control = Continue | Break | Return

fun for_transitions :: "transition list \<Rightarrow> int option \<Rightarrow> StateMachine \<Rightarrow> control \<times> StateMachine" where
  "for_transitions [] status self = (Continue, self)"
| "for_transitions (tr # trs) status self =
     (if condition tr status
      then (if get_terminate tr
            then (Return, self\<lparr>state := next_state tr\<rparr>)
            else (Break, self\<lparr>state := next_state tr\<rparr>))
      else for_transitions trs status self)"

text \<open>Line 57 and 58: in state \<^verbatim>\<open>"LOGIN"\<close> the front of a non-empty queue is popped.\<close>

definition take_credential :: "StateMachine \<Rightarrow> StateMachine" where
  "take_credential self =
     (case credentials self of
        c # cs \<Rightarrow> if state self = ''LOGIN''
                  then self\<lparr>current_credential := Some c, credentials := cs\<rparr> else self
      | [] \<Rightarrow> self)"

text \<open>
  The body of the loop over the tasks, for one task (lines 54 to 70). An exception from
  \<^verbatim>\<open>execute_task\<close> passes through it, as through both loops and \<^verbatim>\<open>run\<close>, none of which
  has a handler.
\<close>

definition task_body ::
  "world \<Rightarrow> state_config \<Rightarrow> ref \<Rightarrow> shared \<times> StateMachine \<Rightarrow>
   raised + control \<times> shared \<times> StateMachine" where
  "task_body w state_config t = (\<lambda>(sh, self).
     let (r, sh1) = observe_running w sh
     in if \<not> r then Inr (Break, sh1, self)
        else (case execute_task w t (sh1, take_credential self) of
                Inl x \<Rightarrow> Inl x
              | Inr (status, sh2, self2) \<Rightarrow>
                  (let (c, self3) = for_transitions (transitions state_config) status self2
                   in Inr (c, sh2, self3))))"

text \<open>
  The loop over the tasks. It ends with the list (\<open>Continue\<close> from the last task) or is
  left by \<^verbatim>\<open>break\<close>; in both cases the outer loop tests its condition next. Or it is left
  by \<^verbatim>\<open>return\<close>, which ends the run.
\<close>

fun for_tasks ::
  "world \<Rightarrow> state_config \<Rightarrow> ref list \<Rightarrow> shared \<times> StateMachine \<Rightarrow>
   raised + control \<times> shared \<times> StateMachine" where
  "for_tasks w state_config [] s = Inr (Continue, s)"
| "for_tasks w state_config (t # ts) s =
     (case task_body w state_config t s of
        Inl x \<Rightarrow> Inl x
      | Inr (Continue, s') \<Rightarrow> for_tasks w state_config ts s'
      | Inr (c, s') \<Rightarrow> Inr (c, s'))"

text \<open>
  \<^verbatim>\<open>StateMachine.run\<close>. The outer loop may go on for ever, so the model counts its
  rounds: \<open>run n\<close> is \<open>None\<close> when the run has not ended within \<open>n\<close> tests of the loop's
  condition; otherwise it is the final state, of a run that has returned (\<open>Inr\<close>) or of
  one that an exception has ended (\<open>Inl\<close>).
\<close>

fun run ::
  "nat \<Rightarrow> world \<Rightarrow> config \<Rightarrow> shared \<times> StateMachine \<Rightarrow> (raised + shared \<times> StateMachine) option" where
  "run 0 w cfg s = None"
| "run (Suc n) w cfg (sh, self) =
     (case states cfg (state self) of
        None \<Rightarrow> Some (Inr (sh, self))
      | Some state_config \<Rightarrow>
          (let (r, sh1) = observe_running w sh
           in if \<not> r then Some (Inr (sh1, self))
              else (case for_tasks w state_config (tasks state_config) (sh1, self) of
                      Inl x \<Rightarrow> Some (Inl x)
                    | Inr (Return, s') \<Rightarrow> Some (Inr s')
                    | Inr (_, s') \<Rightarrow> run n w cfg s')))"


section \<open>Workers side by side\<close>

text \<open>
  Under \<^verbatim>\<open>asyncio\<close> a worker runs until it waits for the answer to a request; other
  workers run meanwhile, and it goes on when its answer is there. A worker is therefore
  in one of three conditions: waiting inside \<^verbatim>\<open>execute_task\<close> (with the state's
  configuration, the tasks that the loop has still to visit, the task under way, its start
  time and the outcome that will arrive), returned, or ended by an exception.
\<close>

datatype proc =
    Suspended StateMachine state_config "ref list" ref int outcome
  | Returned StateMachine
  | Raised string StateMachine

fun machine :: "proc \<Rightarrow> StateMachine" where
  "machine (Suspended self sc ts t start_time out) = self"
| "machine (Returned self) = self"
| "machine (Raised e self) = self"

fun is_done :: "proc \<Rightarrow> bool" where
  "is_done (Suspended self sc ts t start_time out) = False"
| "is_done (Returned self) = True"
| "is_done (Raised e self) = True"

fun exception_of :: "proc \<Rightarrow> string option" where
  "exception_of (Raised e self) = Some e"
| "exception_of p = None"

text \<open>
  The loop over the tasks, from the given rest of the list up to the next request: the
  worker is then waiting (\<open>Inl\<close>), or the loop has been left without a request, by
  \<^verbatim>\<open>break\<close> or at the end of the list (\<open>Inr\<close>).
\<close>

definition next_request ::
  "world \<Rightarrow> state_config \<Rightarrow> ref list \<Rightarrow> shared \<times> StateMachine \<Rightarrow> shared \<times> (proc + StateMachine)" where
  "next_request w state_config ts = (\<lambda>(sh, self).
     case ts of
       [] \<Rightarrow> (sh, Inr self)
     | t # rest \<Rightarrow>
         (let (r, sh1) = observe_running w sh
          in if \<not> r then (sh1, Inr self)
             else (let self1 = take_credential self;
                       (start_time, out, sh2) = begin_task w t (sh1, self1)
                   in (sh2, Inl (Suspended self1 state_config rest t start_time out)))))"

text \<open>
  The outer loop from its test up to the next request or the end of the run; as in \<open>run\<close>,
  the number counts the tests of the loop's condition.
\<close>

fun enter :: "nat \<Rightarrow> world \<Rightarrow> config \<Rightarrow> shared \<times> StateMachine \<Rightarrow> (shared \<times> proc) option" where
  "enter 0 w cfg s = None"
| "enter (Suc n) w cfg (sh, self) =
     (case states cfg (state self) of
        None \<Rightarrow> Some (sh, Returned self)
      | Some state_config \<Rightarrow>
          (let (r, sh1) = observe_running w sh
           in if \<not> r then Some (sh1, Returned self)
              else (case next_request w state_config (tasks state_config) (sh1, self) of
                      (sh2, Inl p) \<Rightarrow> Some (sh2, p)
                    | (sh2, Inr self2) \<Rightarrow> enter n w cfg (sh2, self2))))"

text \<open>
  A waiting worker goes on with its answer: lines 27 to 45, the loop over the
  transitions, and then the loops up to its next request. A worker that is done stays as
  it is.
\<close>

fun resume :: "nat \<Rightarrow> world \<Rightarrow> config \<Rightarrow> shared \<times> proc \<Rightarrow> (shared \<times> proc) option" where
  "resume n w cfg (sh, Suspended self state_config ts t start_time out) =
     (case end_task w t start_time out (sh, self) of
        Inl (e, sh1, self1) \<Rightarrow> Some (sh1, Raised e self1)
      | Inr (status, sh1, self1) \<Rightarrow>
          (case for_transitions (transitions state_config) status self1 of
             (Return, self2) \<Rightarrow> Some (sh1, Returned self2)
           | (Break, self2) \<Rightarrow> enter n w cfg (sh1, self2)
           | (Continue, self2) \<Rightarrow>
               (case next_request w state_config ts (sh1, self2) of
                  (sh2, Inl p) \<Rightarrow> Some (sh2, p)
                | (sh2, Inr self3) \<Rightarrow> enter n w cfg (sh2, self3))))"
| "resume n w cfg (sh, Returned self) = Some (sh, Returned self)"
| "resume n w cfg (sh, Raised e self) = Some (sh, Raised e self)"

text \<open>One worker on its own, resumed as often as the first number says.\<close>

fun drive :: "nat \<Rightarrow> nat \<Rightarrow> world \<Rightarrow> config \<Rightarrow> shared \<times> proc \<Rightarrow> (shared \<times> proc) option" where
  "drive 0 n w cfg s = Some s"
| "drive (Suc k) n w cfg s =
     (case resume n w cfg s of None \<Rightarrow> None | Some s' \<Rightarrow> drive k n w cfg s')"

fun ended :: "raised + shared \<times> StateMachine \<Rightarrow> shared \<times> proc" where
  "ended (Inl (e, sh, self)) = (sh, Raised e self)"
| "ended (Inr (sh, self)) = (sh, Returned self)"

section \<open>The orchestrator\<close>

text \<open>
  \<^verbatim>\<open>main\<close> builds, in every round, one worker per credential of the pool, each with its own
  copy of the list of credentials (lines 140 to 143).
\<close>

definition population :: "config \<Rightarrow> ref list \<Rightarrow> StateMachine list" where
  "population cfg creds = map (\<lambda>_. StateMachine_init cfg creds) [0..<length creds]"

text \<open>
  Lines 154 and 155 walk over the list \<^verbatim>\<open>state_machines\<close> of the round and add the records
  of each to the collector.
\<close>

definition harvest :: "MetricsCollector \<Rightarrow> StateMachine list \<Rightarrow> MetricsCollector" where
  "harvest c state_machines = foldl (\<lambda>c sm. add_metrics c (metrics sm)) c state_machines"

text \<open>
  Line 144 makes a task of every worker's \<^verbatim>\<open>run\<close>; when \<^verbatim>\<open>main\<close> waits in line 146 they
  start, in the order of the list, and each runs up to its first request or to its end.
  The new workers join those of earlier rounds that are still under way.
\<close>

fun start_all ::
  "nat \<Rightarrow> world \<Rightarrow> config \<Rightarrow> StateMachine list \<Rightarrow> shared \<times> proc list \<Rightarrow> (shared \<times> proc list) option" where
  "start_all n w cfg [] s = Some s"
| "start_all n w cfg (sm # sms) (sh, live) =
     (case enter n w cfg (sh, sm) of
        None \<Rightarrow> None
      | Some (sh1, p) \<Rightarrow> start_all n w cfg sms (sh1, live @ [p]))"

text \<open>
  Which waiting worker goes on next, and how many do before \<^verbatim>\<open>main\<close> itself goes on, is
  up to the network and the event loop: it is given as the list of the workers (by their
  positions among all workers launched so far) in the order in which they go on.
\<close>

fun resume_all ::
  "nat \<Rightarrow> world \<Rightarrow> config \<Rightarrow> nat list \<Rightarrow> shared \<times> proc list \<Rightarrow> (shared \<times> proc list) option" where
  "resume_all n w cfg [] s = Some s"
| "resume_all n w cfg (i # is) (sh, live) =
     (if i < length live
      then (case resume n w cfg (sh, live ! i) of
              None \<Rightarrow> None
            | Some (sh1, p) \<Rightarrow> resume_all n w cfg is (sh1, live[i := p]))
      else resume_all n w cfg is (sh, live))"

text \<open>
  One round of the loop in \<^verbatim>\<open>main\<close> (lines 140 to 155). \<^verbatim>\<open>asyncio.wait\<close> raises
  \<^verbatim>\<open>ValueError\<close> for an empty list of tasks. Otherwise \<^verbatim>\<open>main\<close> waits: workers of earlier
  rounds whose answers are there already go on (the first list), the new workers start,
  and then workers old and new go on as their answers arrive (the second list). The wait
  returns when at least one worker of the round is done: the result is \<open>None\<close> when, after
  the given workers have gone on, none is (or when a worker never reaches a request or
  its end). Lines 148 to 152 await the workers that are done, which raises the exception
  of one that an exception has ended; nothing in \<^verbatim>\<open>main\<close> handles it, so the harvest is not
  reached (\<open>Inl\<close>). Otherwise the records of all workers of the round are added to the
  collector.
\<close>

type_synonym main_raised = "string \<times> shared \<times> proc list"

type_synonym order = "nat list \<times> nat list"

definition main_round ::
  "nat \<Rightarrow> world \<Rightarrow> config \<Rightarrow> ref list \<Rightarrow> order \<Rightarrow> shared \<times> proc list \<Rightarrow>
   (main_raised + shared \<times> proc list) option" where
  "main_round n w cfg creds sched = (\<lambda>(sh, live).
     if creds = [] then Some (Inl (''ValueError'', sh, live))
     else (case resume_all n w cfg (fst sched) (sh, live) of
             None \<Rightarrow> None
           | Some s0 \<Rightarrow>
               (case start_all n w cfg (population cfg creds) s0 of
                  None \<Rightarrow> None
                | Some s1 \<Rightarrow>
                    (case resume_all n w cfg (snd sched) s1 of
                       None \<Rightarrow> None
                     | Some (sh2, live2) \<Rightarrow>
                         (let state_machines = drop (length live) live2
                          in if \<not> list_ex is_done state_machines then None
                             else (case List.map_filter exception_of state_machines of
                                     e # _ \<Rightarrow> Some (Inl (e, sh2, live2))
                                   | [] \<Rightarrow>
                                       Some (Inr (sh2\<lparr>collector :=
                                                    harvest (collector sh2)
                                                      (map machine state_machines)\<rparr>,
                                                  live2))))))))"

text \<open>
  The loop of \<^verbatim>\<open>main\<close> (line 139) over the rounds for which the list has an order of
  resumptions; it ends before a round when the flag is down.
\<close>

fun main_loop ::
  "nat \<Rightarrow> world \<Rightarrow> config \<Rightarrow> ref list \<Rightarrow> order list \<Rightarrow> shared \<times> proc list \<Rightarrow>
   (main_raised + shared \<times> proc list) option" where
  "main_loop n w cfg creds [] s = Some (Inr s)"
| "main_loop n w cfg creds (sched # scheds) (sh, live) =
     (let (r, sh1) = observe_running w sh
      in if \<not> r then Some (Inr (sh1, live))
         else (case main_round n w cfg creds sched (sh1, live) of
                 None \<Rightarrow> None
               | Some (Inl x) \<Rightarrow> Some (Inl x)
               | Some (Inr s') \<Rightarrow> main_loop n w cfg creds scheds s'))"


text \<open>
  The harvest as the specification words it, for comparison: only the workers that have
  finished hand their records over.
\<close>

definition spec_harvest_finished :: "MetricsCollector \<Rightarrow> proc list \<Rightarrow> MetricsCollector" where
  "spec_harvest_finished c ps = harvest c (map machine (filter is_done ps))"

text \<open>
  The consistency that the specification asks of a configuration: the initial state and
  the target of every transition name a state of the graph.
\<close>

definition spec_consistent :: "config \<Rightarrow> bool" where
  "spec_consistent cfg =
     ((case initial_state cfg of None \<Rightarrow> False | Some s \<Rightarrow> s \<in> dom (states cfg)) \<and>
      (\<forall>sc \<in> ran (states cfg). \<forall>tr \<in> set (transitions sc). next_state tr \<in> dom (states cfg)))"

section \<open>Concrete configurations\<close>

text \<open>
  The configuration, the tasks and the credential pool that \<^verbatim>\<open>main\<close> builds. The body of
  the login task is the dictionary at address 0, the credentials are at 1, 2 and 3.
\<close>

definition main_config :: config where
  "main_config =
     \<lparr>initial_state = Some ''LOGIN'',
      states =
        [''LOGIN'' \<mapsto>
           \<lparr>tasks = [0],
            transitions =
              [\<lparr>condition = (\<lambda>status. status = Some 200), next_state = ''FETCH_DATA'',
                terminate = None\<rparr>,
               \<lparr>condition = (\<lambda>status. status \<noteq> Some 200), next_state = ''LOGIN_FAILED'',
                terminate = Some True\<rparr>]\<rparr>,
         ''FETCH_DATA'' \<mapsto>
           \<lparr>tasks = [1],
            transitions =
              [\<lparr>condition = (\<lambda>status. status = Some 200), next_state = ''COMPLETE'',
                terminate = None\<rparr>,
               \<lparr>condition = (\<lambda>status. status \<noteq> Some 200), next_state = ''ERROR'',
                terminate = Some True\<rparr>]\<rparr>,
         ''LOGIN_FAILED'' \<mapsto> \<lparr>tasks = [], transitions = []\<rparr>,
         ''ERROR'' \<mapsto> \<lparr>tasks = [], transitions = []\<rparr>,
         ''COMPLETE'' \<mapsto> \<lparr>tasks = [], transitions = []\<rparr>]\<rparr>"

definition main_tasks :: "ref \<Rightarrow> task" where
  "main_tasks r =
     (if r = 0
      then \<lparr>name = ''login'', http_method = POST, url = ''https://example.com/login'',
            params = Some \<lparr>data = Some 0\<rparr>\<rparr>
      else \<lparr>name = ''fetch_data'', http_method = GET, url = ''https://example.com/data'',
            params = None\<rparr>)"

definition main_heap :: "ref \<Rightarrow> dict" where
  "main_heap r =
     (if r = 1 then [(''username'', ''user1''), (''password'', ''pass1'')]
      else if r = 2 then [(''username'', ''user2''), (''password'', ''pass2'')]
      else if r = 3 then [(''username'', ''user3''), (''password'', ''pass3'')]
      else [])"

definition main_credentials :: "ref list" where
  "main_credentials = [1, 2, 3]"

definition shared_init :: "(ref \<Rightarrow> task) \<Rightarrow> (ref \<Rightarrow> dict) \<Rightarrow> shared" where
  "shared_init ts h =
     \<lparr>task_store = ts, heap = h, collector = MetricsCollector_init, sent = [],
      clock_reads = 0, flag_reads = 0\<rparr>"

text \<open>
  The graph of the specification's scenario: \<open>A\<close> goes to \<open>B\<close> on status 200 and to the
  flagged \<open>F\<close> otherwise; \<open>B\<close> has neither tasks nor transitions. Its one task has no
  parameters, and there are no dictionaries.
\<close>

definition scenario_config :: config where
  "scenario_config =
     \<lparr>initial_state = Some ''A'',
      states =
        [''A'' \<mapsto>
           \<lparr>tasks = [0],
            transitions =
              [\<lparr>condition = (\<lambda>status. status = Some 200), next_state = ''B'',
                terminate = None\<rparr>,
               \<lparr>condition = (\<lambda>status. status \<noteq> Some 200), next_state = ''F'',
                terminate = Some True\<rparr>]\<rparr>,
         ''B'' \<mapsto> \<lparr>tasks = [], transitions = []\<rparr>]\<rparr>"

definition scenario_tasks :: "ref \<Rightarrow> task" where
  "scenario_tasks r = \<lparr>name = ''a'', http_method = GET, url = ''https://example.com/a'', params = None\<rparr>"

definition no_dicts :: "ref \<Rightarrow> dict" where
  "no_dicts r = []"

text \<open>
  A state whose two conditions both hold for status 200, a graph whose only transition
  never fires for the status the service gives, and a graph whose transition names a
  state that the graph does not have.
\<close>

definition overlap_state :: state_config where
  "overlap_state =
     \<lparr>tasks = [0],
      transitions =
        [\<lparr>condition = (\<lambda>status. status = Some 200), next_state = ''B'', terminate = None\<rparr>,
         \<lparr>condition = (\<lambda>status. status \<noteq> None), next_state = ''C'', terminate = None\<rparr>]\<rparr>"

definition polling_config :: config where
  "polling_config =
     \<lparr>initial_state = Some ''POLL'',
      states =
        [''POLL'' \<mapsto>
           \<lparr>tasks = [0],
            transitions =
              [\<lparr>condition = (\<lambda>status. status = Some 200), next_state = ''DONE'',
                terminate = Some True\<rparr>]\<rparr>]\<rparr>"

definition dangling_config :: config where
  "dangling_config =
     \<lparr>initial_state = Some ''A'',
      states =
        [''A'' \<mapsto>
           \<lparr>tasks = [0],
            transitions =
              [\<lparr>condition = (\<lambda>status. True), next_state = ''MISSING'', terminate = None\<rparr>]\<rparr>]\<rparr>"

text \<open>
  A login form: the body of the one task (at address 0) has a key that the credential (at
  address 1) has not, and a key that it has with another value.
\<close>

definition form_tasks :: "ref \<Rightarrow> task" where
  "form_tasks r =
     \<lparr>name = ''login'', http_method = POST, url = ''https://example.com/login'',
      params = Some \<lparr>data = Some 0\<rparr>\<rparr>"

definition form_heap :: "ref \<Rightarrow> dict" where
  "form_heap r =
     (if r = 0 then [(''grant'', ''password''), (''username'', ''nobody'')]
      else if r = 1 then [(''username'', ''user1''), (''password'', ''pass1'')]
      else [])"

text \<open>
  Environments. In the first every request has the given outcome and the interrupt
  arrives before the read of the flag that the index names, or never. In the second the
  requests have the outcomes of the list, in the order in which they are made, and 200
  after that; there is no interrupt. The clock advances by one unit per reading.
\<close>

definition answering :: "outcome \<Rightarrow> nat option \<Rightarrow> world" where
  "answering out stop_at =
     \<lparr>http = (\<lambda>_ _. out), clock = (\<lambda>k. int k),
      sigint = (\<lambda>k. case stop_at of None \<Rightarrow> False | Some j \<Rightarrow> k = j)\<rparr>"

definition scripted :: "outcome list \<Rightarrow> world" where
  "scripted outs =
     \<lparr>http = (\<lambda>k _. if k < length outs then outs ! k else Response 200), clock = (\<lambda>k. int k),
      sigint = (\<lambda>k. False)\<rparr>"

section \<open>Basic facts about the model\<close>

subsection \<open>Dictionaries\<close>

text \<open>
  The update gives every key of the second dictionary that dictionary's value (the last
  one, should the list name a key twice, which a dictionary does not) and leaves the other
  keys of the first as they were; it keeps the keys distinct.
\<close>

lemma setitem_map_of: "map_of (setitem k v d) x = (if x = k then Some v else map_of d x)"
  by (induction d) auto

lemma dict_update_map_of:
  "map_of (dict_update d c) x =
     (case map_of (rev c) x of Some v \<Rightarrow> Some v | None \<Rightarrow> map_of d x)"
proof (induction c arbitrary: d)
  case Nil
  then show ?case by simp
next
  case (Cons p c)
  obtain k v where p: "p = (k, v)" by (cases p)
  show ?case
    using Cons.IH [of "setitem k v d"]
    by (auto simp: p setitem_map_of map_add_def split: option.splits)
qed

lemma setitem_keys: "fst ` set (setitem k v d) = insert k (fst ` set d)"
  by (induction d) auto

lemma setitem_distinct: "distinct (map fst d) \<Longrightarrow> distinct (map fst (setitem k v d))"
proof (induction d)
  case Nil
  then show ?case by simp
next
  case (Cons p d)
  then show ?case
    using setitem_keys [of k v d] by (auto simp: image_iff)
qed

lemma dict_update_distinct:
  "distinct (map fst d) \<Longrightarrow> distinct (map fst (dict_update d c))"
  by (induction c arbitrary: d) (auto simp: setitem_distinct)

subsection \<open>Reading the flag\<close>

lemma observe_running_go:
  "running (collector sh) \<Longrightarrow> \<not> sigint w (flag_reads sh) \<Longrightarrow>
   observe_running w sh = (True, sh\<lparr>flag_reads := Suc (flag_reads sh)\<rparr>)"
  by (simp add: observe_running_def)

lemma observe_running_result:
  "observe_running w sh = (r, sh1) \<Longrightarrow>
   running (collector sh1) = r \<and> (r \<longrightarrow> running (collector sh)) \<and>
   task_store sh1 = task_store sh \<and> heap sh1 = heap sh \<and> sent sh1 = sent sh \<and>
   clock_reads sh1 = clock_reads sh \<and>
   all_metrics (collector sh1) = all_metrics (collector sh)"
  by (auto simp: observe_running_def stop_def Let_def split: if_splits)

subsection \<open>One execution of a task\<close>


lemma merge_credential_body:
  "current_credential self = Some c \<Longrightarrow> params t = Some p \<Longrightarrow> data p = Some d \<Longrightarrow>
   merge_credential self t h d = dict_update (h d) (h c)"
  by (cases "h c = []") (simp_all add: merge_credential_def)


lemma begin_task_result:
  "begin_task w r (sh, self) = (start_time, out, sh1) \<Longrightarrow>
   start_time = clock w (clock_reads sh) \<and>
   sh1 = sh\<lparr>clock_reads := Suc (clock_reads sh),
            heap := merge_credential self (task_store sh r) (heap sh),
            sent := sent sh @ [request_of (task_store sh r)
                                 (merge_credential self (task_store sh r) (heap sh))]\<rparr> \<and>
   out = http w (length (sent sh))
           (request_of (task_store sh r) (merge_credential self (task_store sh r) (heap sh)))"
  by (auto simp: begin_task_def monotonic_def Let_def)

lemma end_task_Inr:
  "end_task w r start_time out (sh, self) = Inr (status, sh', self') \<Longrightarrow>
   sh' = sh\<lparr>clock_reads := Suc (clock_reads sh)\<rparr> \<and>
   (\<exists>m. self' = self\<lparr>metrics := metrics self @ [m]\<rparr> \<and> m_status m = status \<and>
        m_state m = state self \<and> m_task m = name (task_store sh r) \<and>
        m_response_time m = clock w (clock_reads sh) - start_time \<and>
        ((\<exists>st. out = Response st \<and> status = Some st \<and> m_error m = None) \<or>
         (\<exists>msg. out = ClientError msg \<and> status = None \<and> m_error m = Some msg)))"
  by (auto simp: end_task_def monotonic_def Let_def split: outcome.splits)

lemma end_task_Inl:
  "end_task w r start_time out (sh, self) = Inl (e, sh', self') \<Longrightarrow>
   out = OtherError e \<and> sh' = sh \<and> self' = self"
  by (auto simp: end_task_def monotonic_def Let_def split: outcome.splits)


lemma execute_task_split:
  "begin_task w r (sh, self) = (start_time, out, sh1) \<Longrightarrow>
   execute_task w r (sh, self) = end_task w r start_time out (sh1, self)"
  by (simp add: execute_task_def)

lemma execute_task_Inr:
  assumes "execute_task w r (sh, self) = Inr (status, sh', self')"
  shows "task_store sh' = task_store sh \<and>
   heap sh' = merge_credential self (task_store sh r) (heap sh) \<and>
   sent sh' = sent sh @ [request_of (task_store sh r) (heap sh')] \<and>
   collector sh' = collector sh \<and> flag_reads sh' = flag_reads sh \<and>
   clock_reads sh' = Suc (Suc (clock_reads sh)) \<and>
   credentials self' = credentials self \<and> current_credential self' = current_credential self \<and>
   state self' = state self \<and>
   (\<exists>m. metrics self' = metrics self @ [m] \<and> m_status m = status)"
proof -
  obtain start_time out sh1 where b: "begin_task w r (sh, self) = (start_time, out, sh1)"
    by (metis prod_cases3)
  from assms have e: "end_task w r start_time out (sh1, self) = Inr (status, sh', self')"
    by (simp add: execute_task_split [OF b])
  from begin_task_result [OF b] end_task_Inr [OF e] show ?thesis by auto
qed

lemma execute_task_Inl:
  assumes "execute_task w r (sh, self) = Inl (e, sh', self')"
  shows "task_store sh' = task_store sh \<and>
   heap sh' = merge_credential self (task_store sh r) (heap sh) \<and>
   sent sh' = sent sh @ [request_of (task_store sh r) (heap sh')] \<and>
   collector sh' = collector sh \<and> flag_reads sh' = flag_reads sh \<and>
   clock_reads sh' = Suc (clock_reads sh) \<and> self' = self \<and>
   http w (length (sent sh)) (request_of (task_store sh r) (heap sh')) = OtherError e"
proof -
  obtain start_time out sh1 where b: "begin_task w r (sh, self) = (start_time, out, sh1)"
    by (metis prod_cases3)
  from assms have e: "end_task w r start_time out (sh1, self) = Inl (e, sh', self')"
    by (simp add: execute_task_split [OF b])
  from begin_task_result [OF b] end_task_Inl [OF e] show ?thesis by auto
qed



subsection \<open>The loops\<close>

lemma for_transitions_first:
  "\<forall>p\<in>set pre. \<not> condition p status \<Longrightarrow> condition tr status \<Longrightarrow>
   for_transitions (pre @ tr # post) status self =
     (if get_terminate tr then Return else Break, self\<lparr>state := next_state tr\<rparr>)"
  by (induction pre) auto

lemma for_transitions_Continue:
  "for_transitions trs status self = (Continue, self') \<Longrightarrow>
   (\<forall>p\<in>set trs. \<not> condition p status) \<and> self' = self"
  by (induction trs) (auto split: if_splits)

lemma for_transitions_frame:
  "for_transitions trs status self = (c, self') \<Longrightarrow>
   credentials self' = credentials self \<and> current_credential self' = current_credential self \<and>
   metrics self' = metrics self"
  by (induction trs) (auto split: if_splits)

lemma for_transitions_matched:
  "for_transitions trs status self = (c, self') \<Longrightarrow> c \<noteq> Continue \<Longrightarrow>
   \<exists>tr\<in>set trs. condition tr status"
  by (induction trs) (auto split: if_splits)

lemma take_credential_frame:
  "state (take_credential self) = state self \<and> metrics (take_credential self) = metrics self"
  by (simp add: take_credential_def split: list.splits)

lemma task_body_running:
  "observe_running w sh = (True, sh1) \<Longrightarrow>
   execute_task w t (sh1, take_credential self) = Inr (status, sh2, self2) \<Longrightarrow>
   task_body w sc t (sh, self) =
     Inr (fst (for_transitions (transitions sc) status self2), sh2,
          snd (for_transitions (transitions sc) status self2))"
  by (simp add: task_body_def split: prod.splits)

lemma task_body_raised:
  "observe_running w sh = (True, sh1) \<Longrightarrow>
   execute_task w t (sh1, take_credential self) = Inl x \<Longrightarrow>
   task_body w sc t (sh, self) = Inl x"
  by (simp add: task_body_def)

lemma task_body_cases:
  assumes "task_body w sc t (sh, self) = R"
  obtains (stopped) sh1 where "observe_running w sh = (False, sh1)" "R = Inr (Break, sh1, self)"
  | (raised) sh1 x where "observe_running w sh = (True, sh1)"
      "execute_task w t (sh1, take_credential self) = Inl x" "R = Inl x"
  | (executed) sh1 status sh2 self2 c self3 where "observe_running w sh = (True, sh1)"
      "execute_task w t (sh1, take_credential self) = Inr (status, sh2, self2)"
      "for_transitions (transitions sc) status self2 = (c, self3)" "R = Inr (c, sh2, self3)"
  using assms
  by (auto simp: task_body_def split: prod.splits if_splits sum.splits)

lemma for_tasks_step:
  "for_tasks w sc (t # ts) s =
     (case task_body w sc t s of
        Inl x \<Rightarrow> Inl x
      | Inr (c, s') \<Rightarrow> if c = Continue then for_tasks w sc ts s' else Inr (c, s'))"
  by (auto split: sum.splits control.splits)

lemma for_tasks_append:
  "for_tasks w sc (xs @ ys) s =
     (case for_tasks w sc xs s of
        Inl x \<Rightarrow> Inl x
      | Inr (c, s') \<Rightarrow> if c = Continue then for_tasks w sc ys s' else Inr (c, s'))"
proof (induction xs arbitrary: s)
  case Nil
  then show ?case by simp
next
  case (Cons t xs)
  show ?case
    unfolding append_Cons for_tasks_step [of w sc t]
    by (auto simp: Cons.IH split: sum.splits)
qed

lemma for_tasks_raise:
  assumes "tasks_list = before @ t # after"
    and "for_tasks w sc before s0 = Inr (Continue, sh, self)"
    and "task_body w sc t (sh, self) = Inl x"
  shows "for_tasks w sc tasks_list s0 = Inl x"
  using assms by (simp add: for_tasks_append for_tasks_step)

lemma for_tasks_metrics_extend:
  "for_tasks w sc ts (sh, self) = Inr (c, sh', self') \<Longrightarrow>
   \<exists>new. metrics self' = metrics self @ new"
proof (induction ts arbitrary: sh self)
  case Nil
  then show ?case by simp
next
  case (Cons t ts)
  from Cons.prems obtain c1 sh1 self1 where
    tb: "task_body w sc t (sh, self) = Inr (c1, sh1, self1)"
    by (auto simp: for_tasks_step split: sum.splits)
  have step: "\<exists>new. metrics self1 = metrics self @ new"
    using tb
  proof (cases rule: task_body_cases)
    case (stopped sh0)
    then show ?thesis by simp
  next
    case (raised sh0 x)
    then show ?thesis by simp
  next
    case (executed sh0 status sh2 self2 c self3)
    then show ?thesis
      using execute_task_Inr [OF executed(2)] for_transitions_frame [OF executed(3)]
      by (auto simp: take_credential_frame)
  qed
  show ?case
  proof (cases "c1 = Continue")
    case True
    with Cons.prems tb have "for_tasks w sc ts (sh1, self1) = Inr (c, sh', self')"
      by (simp add: for_tasks_step)
    from Cons.IH [OF this] step show ?thesis by auto
  next
    case False
    with Cons.prems tb have "self' = self1" by (cases c1) auto
    with step show ?thesis by simp
  qed
qed

text \<open>
  Counting rounds is sound: a run that has ended within \<open>n\<close> rounds has ended with the
  same result within any larger number of rounds.
\<close>

lemma run_mono: "run n w cfg s = Some r \<Longrightarrow> run (n + k) w cfg s = Some r"
proof (induction n arbitrary: s)
  case 0
  then show ?case by simp
next
  case (Suc n)
  obtain sh self where s: "s = (sh, self)" by (cases s)
  show ?case
    using Suc.prems Suc.IH unfolding s
    by (auto split: option.splits prod.splits if_splits control.splits sum.splits)
qed

subsection \<open>A worker that is resumed agrees with \<open>run\<close>\<close>

lemma enter_mono: "enter n w cfg s = Some x \<Longrightarrow> enter (n + k) w cfg s = Some x"
proof (induction n arbitrary: s)
  case 0
  then show ?case by simp
next
  case (Suc n)
  obtain sh self where s: "s = (sh, self)" by (cases s)
  show ?case
    using Suc.prems Suc.IH unfolding s
    by (auto split: option.splits prod.splits if_splits sum.splits)
qed

lemma resume_mono: "resume n w cfg s = Some x \<Longrightarrow> resume (n + k) w cfg s = Some x"
proof -
  obtain sh p where s: "s = (sh, p)" by (cases s)
  assume "resume n w cfg s = Some x"
  then show ?thesis
    unfolding s
    by (cases p)
      (auto simp: enter_mono split: sum.splits prod.splits control.splits)
qed

lemma drive_mono: "drive j n w cfg s = Some x \<Longrightarrow> drive j (n + k) w cfg s = Some x"
proof (induction j arbitrary: s)
  case 0
  then show ?case by simp
next
  case (Suc j)
  then show ?case
    by (auto simp: resume_mono split: option.splits)
qed

lemma run_Suc_unfold:
  "states cfg (state self) = Some sc \<Longrightarrow> observe_running w sh = (True, sh1) \<Longrightarrow>
   run (Suc n) w cfg (sh, self) =
     (case for_tasks w sc (tasks sc) (sh1, self) of
        Inl x \<Rightarrow> Some (Inl x)
      | Inr (c, s') \<Rightarrow> if c = Return then Some (Inr s') else run n w cfg s')"
  by (auto split: sum.splits control.splits)

lemma enter_Suc_unfold:
  "states cfg (state self) = Some sc \<Longrightarrow> observe_running w sh = (True, sh1) \<Longrightarrow>
   enter (Suc n) w cfg (sh, self) =
     (case next_request w sc (tasks sc) (sh1, self) of
        (sh2, Inl p) \<Rightarrow> Some (sh2, p)
      | (sh2, Inr self2) \<Rightarrow> enter n w cfg (sh2, self2))"
  by simp

lemma alone_tasks:
  assumes H: "\<And>s' r. run n w cfg s' = Some r \<Longrightarrow>
      \<exists>j x. enter n w cfg s' = Some x \<and> drive j n w cfg x = Some (ended r)"
    and m: "m = n \<or> m = Suc n"
    and seq: "(case for_tasks w sc ts (sh, self) of
        Inl x \<Rightarrow> Some (Inl x)
      | Inr (c, s') \<Rightarrow> if c = Return then Some (Inr s') else run n w cfg s') = Some r"
  shows "\<exists>j x. (case next_request w sc ts (sh, self) of
                   (sh2, Inl p) \<Rightarrow> Some (sh2, p)
                 | (sh2, Inr self2) \<Rightarrow> enter m w cfg (sh2, self2)) = Some x \<and>
               drive j (Suc n) w cfg x = Some (ended r)"
  using m seq
proof (induction ts arbitrary: sh self m)
  case Nil
  then have "run n w cfg (sh, self) = Some r" by simp
  from H [OF this] obtain j x where e: "enter n w cfg (sh, self) = Some x"
    and d: "drive j n w cfg x = Some (ended r)" by blast
  have "enter m w cfg (sh, self) = Some x"
    using Nil.prems(1) enter_mono [OF e, of 1] e by auto
  moreover have "drive j (Suc n) w cfg x = Some (ended r)"
    using drive_mono [OF d, of 1] by simp
  ultimately show ?case by (auto simp: next_request_def)
next
  case (Cons t ts)
  have H': "\<exists>j x. enter m' w cfg s' = Some x \<and> drive j (Suc n) w cfg x = Some (ended r)"
    if "run n w cfg s' = Some r" "m' = n \<or> m' = Suc n" for s' m'
  proof -
    from H [OF that(1)] obtain j x where e: "enter n w cfg s' = Some x"
      and d: "drive j n w cfg x = Some (ended r)" by blast
    have "enter m' w cfg s' = Some x"
      using that(2) enter_mono [OF e, of 1] e by auto
    moreover have "drive j (Suc n) w cfg x = Some (ended r)"
      using drive_mono [OF d, of 1] by simp
    ultimately show ?thesis by blast
  qed
  obtain b sh1 where o: "observe_running w sh = (b, sh1)" by (cases "observe_running w sh")
  show ?case
  proof (cases b)
    case False
    have tb: "task_body w sc t (sh, self) = Inr (Break, sh1, self)"
      using o False by (simp add: task_body_def)
    have nr: "next_request w sc (t # ts) (sh, self) = (sh1, Inr self)"
      using o False by (simp add: next_request_def)
    from Cons.prems(2) tb have "run n w cfg (sh1, self) = Some r"
      by (simp add: for_tasks_step)
    from H' [OF this Cons.prems(1)] nr show ?thesis by simp
  next
    case True
    let ?self1 = "take_credential self"
    obtain st out sh2 where bt: "begin_task w t (sh1, ?self1) = (st, out, sh2)"
      by (metis prod_cases3)
    have nr: "next_request w sc (t # ts) (sh, self) =
        (sh2, Inl (Suspended ?self1 sc ts t st out))"
      using o True bt by (simp add: next_request_def)
    have ex: "execute_task w t (sh1, ?self1) = end_task w t st out (sh2, ?self1)"
      by (rule execute_task_split [OF bt])
    have goal: "\<exists>j. drive j (Suc n) w cfg (sh2, Suspended ?self1 sc ts t st out) =
        Some (ended r)"
    proof (cases "end_task w t st out (sh2, ?self1)")
      case (Inl x)
      obtain e sh3 self3 where x: "x = (e, sh3, self3)" by (cases x)
      have "task_body w sc t (sh, self) = Inl x"
        using o True ex Inl by (simp add: task_body_def)
      with Cons.prems(2) have r: "r = Inl x" by (simp add: for_tasks_step)
      have "resume (Suc n) w cfg (sh2, Suspended ?self1 sc ts t st out) = Some (ended r)"
        using Inl x r by simp
      then have "drive (Suc 0) (Suc n) w cfg (sh2, Suspended ?self1 sc ts t st out) =
          Some (ended r)" by simp
      then show ?thesis by blast
    next
      case (Inr y)
      obtain status sh3 self3 where y: "y = (status, sh3, self3)" by (cases y)
      obtain c self4 where ft: "for_transitions (transitions sc) status self3 = (c, self4)"
        by (cases "for_transitions (transitions sc) status self3")
      have tb: "task_body w sc t (sh, self) = Inr (c, sh3, self4)"
        using o True ex Inr y ft by (simp add: task_body_def)
      show ?thesis
      proof (cases c)
        case Return
        with Cons.prems(2) tb have r: "r = Inr (sh3, self4)" by (simp add: for_tasks_step)
        have "resume (Suc n) w cfg (sh2, Suspended ?self1 sc ts t st out) = Some (ended r)"
          using Inr y ft Return r by simp
        then have "drive (Suc 0) (Suc n) w cfg (sh2, Suspended ?self1 sc ts t st out) =
            Some (ended r)" by simp
        then show ?thesis by blast
      next
        case Break
        with Cons.prems(2) tb have "run n w cfg (sh3, self4) = Some r"
          by (simp add: for_tasks_step)
        from H' [OF this, of "Suc n"] obtain j x where
          e: "enter (Suc n) w cfg (sh3, self4) = Some x"
          and d: "drive j (Suc n) w cfg x = Some (ended r)" by blast
        have "resume (Suc n) w cfg (sh2, Suspended ?self1 sc ts t st out) = Some x"
          using Inr y ft Break e by simp
        with d have "drive (Suc j) (Suc n) w cfg (sh2, Suspended ?self1 sc ts t st out) =
            Some (ended r)" by simp
        then show ?thesis by blast
      next
        case Continue
        with Cons.prems(2) tb have "(case for_tasks w sc ts (sh3, self4) of
            Inl x \<Rightarrow> Some (Inl x)
          | Inr (c, s') \<Rightarrow> if c = Return then Some (Inr s') else run n w cfg s') = Some r"
          by (simp add: for_tasks_step)
        from Cons.IH [OF _ this, of "Suc n"] obtain j x where
          e: "(case next_request w sc ts (sh3, self4) of
                   (sh2, Inl p) \<Rightarrow> Some (sh2, p)
                 | (sh2, Inr self2) \<Rightarrow> enter (Suc n) w cfg (sh2, self2)) = Some x"
          and d: "drive j (Suc n) w cfg x = Some (ended r)" by blast
        have "resume (Suc n) w cfg (sh2, Suspended ?self1 sc ts t st out) = Some x"
          using Inr y ft Continue e by (simp del: enter.simps)
        with d have "drive (Suc j) (Suc n) w cfg (sh2, Suspended ?self1 sc ts t st out) =
            Some (ended r)" by simp
        then show ?thesis by blast
      qed
    qed
    with nr show ?thesis by simp
  qed
qed

text \<open>
  When no other worker runs in between, starting a worker and resuming it on every answer
  ends in the state in which \<open>run\<close> ends, returned or raised alike.
\<close>

theorem alone_agrees:
  "run n w cfg s = Some r \<Longrightarrow>
   \<exists>j x. enter n w cfg s = Some x \<and> drive j n w cfg x = Some (ended r)"
proof (induction n arbitrary: s r)
  case 0
  then show ?case by simp
next
  case (Suc n)
  obtain sh self where s: "s = (sh, self)" by (cases s)
  show ?case
  proof (cases "states cfg (state self)")
    case None
    with Suc.prems s have "r = Inr (sh, self)" by simp
    with None s have "enter (Suc n) w cfg s = Some (ended r)" by simp
    moreover have "drive 0 (Suc n) w cfg (ended r) = Some (ended r)" by simp
    ultimately show ?thesis by blast
  next
    case (Some sc)
    obtain b sh1 where o: "observe_running w sh = (b, sh1)" by (cases "observe_running w sh")
    show ?thesis
    proof (cases b)
      case False
      with Suc.prems s Some o have "r = Inr (sh1, self)" by simp
      with Some s o False have "enter (Suc n) w cfg s = Some (ended r)" by simp
      moreover have "drive 0 (Suc n) w cfg (ended r) = Some (ended r)" by simp
      ultimately show ?thesis by blast
    next
      case True
      from Suc.prems s have "(case for_tasks w sc (tasks sc) (sh1, self) of
          Inl x \<Rightarrow> Some (Inl x)
        | Inr (c, s') \<Rightarrow> if c = Return then Some (Inr s') else run n w cfg s') = Some r"
        using run_Suc_unfold [OF Some, of w sh sh1 n] o True by simp
      from alone_tasks [OF Suc.IH _ this, of n]
      show ?thesis
        unfolding s using enter_Suc_unfold [OF Some, of w sh sh1 n] o True by simp
    qed
  qed
qed

subsection \<open>Evaluating the concrete configurations\<close>

lemmas model_defs =
  answering_def scripted_def shared_init_def StateMachine_init_def MetricsCollector_init_def
  observe_running_def stop_def task_body_def execute_task_def begin_task_def end_task_def
  monotonic_def merge_credential_def request_of_def take_credential_def get_terminate_def

lemmas scenario_defs = model_defs scenario_tasks_def no_dicts_def scenario_config_def

section \<open>Executing a task\<close>

text \<open>
  Claim C6, as the code has it. What an execution does depends on the outcome of its
  request. When the request is answered, exactly one record is appended, with the status,
  the elapsed time (the difference of the two clock readings) and no error, and the status
  is the result. When it fails with a client error, exactly one record is appended, with
  no status, the elapsed time and the text of the error; the result is absent and the
  execution returns. When the request raises any other exception, no record is
  appended and the exception leaves \<^verbatim>\<open>execute_task\<close>; wherever in a state's task list that
  happens, it ends the worker's run. Every execution that returns has appended one
  record, in which exactly one of status and error is present.
\<close>

theorem execute_task_metric:
  assumes "begin_task w t (sh, self) = (start_time, out, sh1)"
  shows "(out = Response st \<longrightarrow>
            execute_task w t (sh, self) =
              Inr (Some st, sh1\<lparr>clock_reads := Suc (Suc (clock_reads sh))\<rparr>,
                   self\<lparr>metrics := metrics self @
                     [\<lparr>m_state = state self, m_task = name (task_store sh t),
                       m_status = Some st,
                       m_response_time = clock w (Suc (clock_reads sh)) - clock w (clock_reads sh),
                       m_error = None\<rparr>]\<rparr>)) \<and>
         (out = ClientError msg \<longrightarrow>
            execute_task w t (sh, self) =
              Inr (None, sh1\<lparr>clock_reads := Suc (Suc (clock_reads sh))\<rparr>,
                   self\<lparr>metrics := metrics self @
                     [\<lparr>m_state = state self, m_task = name (task_store sh t),
                       m_status = None,
                       m_response_time = clock w (Suc (clock_reads sh)) - clock w (clock_reads sh),
                       m_error = Some msg\<rparr>]\<rparr>)) \<and>
         (out = OtherError e \<longrightarrow>
            execute_task w t (sh, self) = Inl (e, sh1, self) \<and>
            (states cfg (state self0) = Some sc \<and> observe_running w sh0 = (True, sh0') \<and>
             tasks sc = before @ t # after \<and>
             for_tasks w sc before (sh0', self0) = Inr (Continue, sh_a, self_a) \<and>
             observe_running w sh_a = (True, sh) \<and> self = take_credential self_a \<longrightarrow>
               run (Suc n) w cfg (sh0, self0) = Some (Inl (e, sh1, self)))) \<and>
         (\<forall>result sh' self'. execute_task w t (sh, self) = Inr (result, sh', self') \<longrightarrow>
            (\<exists>m. self' = self\<lparr>metrics := metrics self @ [m]\<rparr> \<and> m_status m = result \<and>
                 ((m_status m = None) \<noteq> (m_error m = None))))"
proof -
  note b = begin_task_result [OF assms]
  have ex: "execute_task w t (sh, self) = end_task w t start_time out (sh1, self)"
    by (rule execute_task_split [OF assms])
  have r1: "execute_task w t (sh, self) =
              Inr (Some st, sh1\<lparr>clock_reads := Suc (Suc (clock_reads sh))\<rparr>,
                   self\<lparr>metrics := metrics self @
                     [\<lparr>m_state = state self, m_task = name (task_store sh t),
                       m_status = Some st,
                       m_response_time = clock w (Suc (clock_reads sh)) - clock w (clock_reads sh),
                       m_error = None\<rparr>]\<rparr>)" if "out = Response st"
    using that b by (simp add: ex end_task_def monotonic_def)
  have r2: "execute_task w t (sh, self) =
              Inr (None, sh1\<lparr>clock_reads := Suc (Suc (clock_reads sh))\<rparr>,
                   self\<lparr>metrics := metrics self @
                     [\<lparr>m_state = state self, m_task = name (task_store sh t),
                       m_status = None,
                       m_response_time = clock w (Suc (clock_reads sh)) - clock w (clock_reads sh),
                       m_error = Some msg\<rparr>]\<rparr>)" if "out = ClientError msg"
    using that b by (simp add: ex end_task_def monotonic_def)
  have r3: "execute_task w t (sh, self) = Inl (e, sh1, self)" if "out = OtherError e"
    using that by (simp add: ex end_task_def)
  have r4: "run (Suc n) w cfg (sh0, self0) = Some (Inl (e, sh1, self))"
    if "out = OtherError e"
      and h: "states cfg (state self0) = Some sc \<and> observe_running w sh0 = (True, sh0') \<and>
             tasks sc = before @ t # after \<and>
             for_tasks w sc before (sh0', self0) = Inr (Continue, sh_a, self_a) \<and>
             observe_running w sh_a = (True, sh) \<and> self = take_credential self_a"
  proof -
    have "task_body w sc t (sh_a, self_a) = Inl (e, sh1, self)"
      using h r3 [OF that(1)] by (simp add: task_body_raised)
    then have "for_tasks w sc (tasks sc) (sh0', self0) = Inl (e, sh1, self)"
      using h for_tasks_raise by blast
    then show ?thesis using h by simp
  qed
  have r5: "\<exists>m. self' = self\<lparr>metrics := metrics self @ [m]\<rparr> \<and> m_status m = result \<and>
                 ((m_status m = None) \<noteq> (m_error m = None))"
    if "execute_task w t (sh, self) = Inr (result, sh', self')" for result sh' self'
    using that end_task_Inr [of w t start_time out sh1 self result sh' self']
    by (auto simp: ex)
  from r1 r2 r3 r4 r5 show ?thesis by blast
qed

text \<open>
  In the scenario graph: a refused request gives one record without status and with the
  error, and a request that times out ends the run with no record.
\<close>

theorem execute_task_metric_witness:
  "execute_task (answering (ClientError ''refused'') None) 0
     (shared_init scenario_tasks no_dicts, StateMachine_init scenario_config []) =
   Inr (None,
        \<lparr>task_store = scenario_tasks, heap = no_dicts, collector = MetricsCollector_init,
         sent = [\<lparr>r_method = GET, r_url = ''https://example.com/a'', r_data = None\<rparr>],
         clock_reads = 2, flag_reads = 0\<rparr>,
        \<lparr>credentials = [], current_credential = None, state = ''A'',
         metrics = [\<lparr>m_state = ''A'', m_task = ''a'', m_status = None, m_response_time = 1,
                     m_error = Some ''refused''\<rparr>]\<rparr>) \<and>
   run 1 (answering (OtherError ''TimeoutError'') None) scenario_config
     (shared_init scenario_tasks no_dicts, StateMachine_init scenario_config []) =
   Some (Inl (''TimeoutError'',
        \<lparr>task_store = scenario_tasks, heap = no_dicts, collector = MetricsCollector_init,
         sent = [\<lparr>r_method = GET, r_url = ''https://example.com/a'', r_data = None\<rparr>],
         clock_reads = 1, flag_reads = 2\<rparr>,
        \<lparr>credentials = [], current_credential = None, state = ''A'', metrics = []\<rparr>))"
proof -
  let ?S = "shared_init scenario_tasks no_dicts"
  let ?M = "StateMachine_init scenario_config []"
  let ?A = "\<lparr>tasks = [0], transitions =
      [\<lparr>condition = (\<lambda>status. status = Some 200), next_state = ''B'', terminate = None\<rparr>,
       \<lparr>condition = (\<lambda>status. status \<noteq> Some 200), next_state = ''F'',
        terminate = Some True\<rparr>]\<rparr>"
  let ?req = "\<lparr>r_method = GET, r_url = ''https://example.com/a'', r_data = None\<rparr>"
  let ?W1 = "answering (ClientError ''refused'') None"
  let ?S1 = "\<lparr>task_store = scenario_tasks, heap = no_dicts, collector = MetricsCollector_init,
         sent = [?req], clock_reads = 1, flag_reads = 0\<rparr>"
  have b1: "begin_task ?W1 0 (?S, ?M) = (0, ClientError ''refused'', ?S1)"
    by (simp add: scenario_defs)
  have first: "execute_task ?W1 0 (?S, ?M) =
      Inr (None, ?S1\<lparr>clock_reads := Suc (Suc (clock_reads ?S))\<rparr>,
           ?M\<lparr>metrics := metrics ?M @
             [\<lparr>m_state = state ?M, m_task = name (task_store ?S 0), m_status = None,
               m_response_time = clock ?W1 (Suc (clock_reads ?S)) - clock ?W1 (clock_reads ?S),
               m_error = Some ''refused''\<rparr>]\<rparr>)"
    using execute_task_metric [OF b1, of _ "''refused''"] by blast
  let ?W2 = "answering (OtherError ''TimeoutError'') None"
  let ?S2 = "\<lparr>task_store = scenario_tasks, heap = no_dicts, collector = MetricsCollector_init,
         sent = [?req], clock_reads = 1, flag_reads = 2\<rparr>"
  have b2: "begin_task ?W2 0 (?S\<lparr>flag_reads := 2\<rparr>, ?M) = (0, OtherError ''TimeoutError'', ?S2)"
    by (simp add: scenario_defs)
  have h: "states scenario_config (state ?M) = Some ?A \<and>
      observe_running ?W2 ?S = (True, ?S\<lparr>flag_reads := 1\<rparr>) \<and>
      tasks ?A = [] @ 0 # [] \<and>
      for_tasks ?W2 ?A [] (?S\<lparr>flag_reads := 1\<rparr>, ?M) = Inr (Continue, ?S\<lparr>flag_reads := 1\<rparr>, ?M) \<and>
      observe_running ?W2 (?S\<lparr>flag_reads := 1\<rparr>) = (True, ?S\<lparr>flag_reads := 2\<rparr>) \<and>
      ?M = take_credential ?M"
    by (simp add: scenario_defs)
  have second: "run (Suc 0) ?W2 scenario_config (?S, ?M) = Some (Inl (''TimeoutError'', ?S2, ?M))"
    using execute_task_metric [OF b2, of _ _ "''TimeoutError''" scenario_config ?M ?A ?S
        "?S\<lparr>flag_reads := 1\<rparr>" "[]" "[]" "?S\<lparr>flag_reads := 1\<rparr>" ?M 0] h
    by blast
  from first second show ?thesis
    by (simp add: scenario_defs)
qed

text \<open>
  The claim as the specification states it, that every execution appends a record and
  that a failure is never fatal to the worker, does not hold: when the login request of
  \<^verbatim>\<open>main\<close>'s configuration times out, the execution raises, no record is made, and the
  exception ends the run.
\<close>

theorem timeout_is_fatal:
  "execute_task (answering (OtherError ''TimeoutError'') None) 0
     (shared_init main_tasks main_heap, (StateMachine_init main_config [2, 3])
        \<lparr>current_credential := Some 1\<rparr>) =
   Inl (''TimeoutError'',
        \<lparr>task_store = main_tasks,
         heap = main_heap(0 := [(''username'', ''user1''), (''password'', ''pass1'')]),
         collector = MetricsCollector_init,
         sent = [\<lparr>r_method = POST, r_url = ''https://example.com/login'',
                  r_data = Some [(''username'', ''user1''), (''password'', ''pass1'')]\<rparr>],
         clock_reads = 1, flag_reads = 0\<rparr>,
        \<lparr>credentials = [2, 3], current_credential = Some 1, state = ''LOGIN'', metrics = []\<rparr>) \<and>
   run 1 (answering (OtherError ''TimeoutError'') None) main_config
     (shared_init main_tasks main_heap, StateMachine_init main_config main_credentials) =
   Some (Inl (''TimeoutError'',
        \<lparr>task_store = main_tasks,
         heap = main_heap(0 := [(''username'', ''user1''), (''password'', ''pass1'')]),
         collector = MetricsCollector_init,
         sent = [\<lparr>r_method = POST, r_url = ''https://example.com/login'',
                  r_data = Some [(''username'', ''user1''), (''password'', ''pass1'')]\<rparr>],
         clock_reads = 1, flag_reads = 2\<rparr>,
        \<lparr>credentials = [2, 3], current_credential = Some 1, state = ''LOGIN'', metrics = []\<rparr>))"
  by (simp add: model_defs main_tasks_def main_heap_def main_config_def main_credentials_def)

section \<open>Transitions\<close>

text \<open>
  Claim C3. The transitions of a state are tried in the order of the list against the
  result of the task that was just executed, and the first one whose condition holds
  gives the worker's next state: the loop over the tasks is left there, with the state
  that the execution has left and the transition's target as the worker's state. In
  particular, when the list is \<open>[p1, p2]\<close> and both conditions hold for the result, the
  next state is the target of \<open>p1\<close>.
\<close>

theorem first_match_wins:
  assumes "observe_running w sh = (True, sh1)"
    and "execute_task w t (sh1, take_credential self) = Inr (status, sh2, self2)"
  shows "(transitions sc = pre @ tr # post \<and> (\<forall>p\<in>set pre. \<not> condition p status) \<and>
          condition tr status \<longrightarrow>
            for_tasks w sc (t # ts) (sh, self) =
              Inr (if get_terminate tr then Return else Break, sh2,
                   self2\<lparr>state := next_state tr\<rparr>)) \<and>
         (transitions sc = [p1, p2] \<and> condition p1 status \<and> condition p2 status \<longrightarrow>
            for_tasks w sc (t # ts) (sh, self) =
              Inr (if get_terminate p1 then Return else Break, sh2,
                   self2\<lparr>state := next_state p1\<rparr>))"
proof -
  have first: "for_tasks w sc (t # ts) (sh, self) =
      Inr (if get_terminate tr' then Return else Break, sh2, self2\<lparr>state := next_state tr'\<rparr>)"
    if "transitions sc = pre' @ tr' # post'" "\<forall>p\<in>set pre'. \<not> condition p status"
      "condition tr' status" for pre' tr' post'
  proof -
    have "task_body w sc t (sh, self) =
        Inr (if get_terminate tr' then Return else Break, sh2, self2\<lparr>state := next_state tr'\<rparr>)"
      using task_body_running [OF assms(1,2)] for_transitions_first [OF that(2,3)] that(1)
      by simp
    then show ?thesis by (simp add: for_tasks_step)
  qed
  have "for_tasks w sc (t # ts) (sh, self) =
      Inr (if get_terminate p1 then Return else Break, sh2, self2\<lparr>state := next_state p1\<rparr>)"
    if "transitions sc = [p1, p2]" "condition p1 status"
    using first [of "[]" p1 "[p2]"] that by simp
  with first show ?thesis by blast
qed

text \<open>Both conditions of \<open>overlap_state\<close> hold for status 200; the worker goes to \<open>B\<close>.\<close>

theorem first_match_wins_witness:
  "condition (transitions overlap_state ! 0) (Some 200) \<and>
   condition (transitions overlap_state ! 1) (Some 200) \<and>
   for_tasks (answering (Response 200) None) overlap_state [0]
     (shared_init scenario_tasks no_dicts, StateMachine_init scenario_config []) =
   Inr (Break,
        \<lparr>task_store = scenario_tasks, heap = no_dicts, collector = MetricsCollector_init,
         sent = [\<lparr>r_method = GET, r_url = ''https://example.com/a'', r_data = None\<rparr>],
         clock_reads = 2, flag_reads = 1\<rparr>,
        \<lparr>credentials = [], current_credential = None, state = ''B'',
         metrics = [\<lparr>m_state = ''A'', m_task = ''a'', m_status = Some 200, m_response_time = 1,
                     m_error = None\<rparr>]\<rparr>)"
proof -
  let ?W = "answering (Response 200) None"
  let ?S = "shared_init scenario_tasks no_dicts"
  let ?M = "StateMachine_init scenario_config []"
  let ?S2 = "\<lparr>task_store = scenario_tasks, heap = no_dicts, collector = MetricsCollector_init,
         sent = [\<lparr>r_method = GET, r_url = ''https://example.com/a'', r_data = None\<rparr>],
         clock_reads = 2, flag_reads = 1\<rparr>"
  let ?M2 = "\<lparr>credentials = [], current_credential = None, state = ''A'',
         metrics = [\<lparr>m_state = ''A'', m_task = ''a'', m_status = Some 200, m_response_time = 1,
                     m_error = None\<rparr>]\<rparr>"
  let ?p1 = "\<lparr>condition = (\<lambda>status. status = Some 200), next_state = ''B'', terminate = None\<rparr>"
  let ?p2 = "\<lparr>condition = (\<lambda>status. status \<noteq> None), next_state = ''C'', terminate = None\<rparr>"
  have o: "observe_running ?W ?S = (True, ?S\<lparr>flag_reads := Suc 0\<rparr>)"
    by (simp add: model_defs)
  have e: "execute_task ?W 0 (?S\<lparr>flag_reads := Suc 0\<rparr>, take_credential ?M) =
      Inr (Some 200, ?S2, ?M2)"
    by (simp add: scenario_defs eval_nat_numeral)
  have "for_tasks ?W overlap_state [0] (?S, ?M) =
      Inr (if get_terminate ?p1 then Return else Break, ?S2, ?M2\<lparr>state := next_state ?p1\<rparr>)"
    using first_match_wins [OF o e, of overlap_state "[]" ?p1 "[?p2]" "[]" ?p1 ?p2]
    by (simp add: overlap_state_def)
  then show ?thesis
    by (simp add: overlap_state_def get_terminate_def)
qed

text \<open>
  Claim C4. When the first transition whose condition holds is flagged as terminating,
  the worker's state becomes its target and the run returns at once: whatever tasks come
  after the executed one in the state's list, and however many rounds the run is given,
  the result is the state right after that one request, with the target as state.
\<close>

theorem terminal_transition_ends_run:
  assumes "states cfg (state self0) = Some sc"
    and "observe_running w sh0 = (True, sh0')"
    and "tasks sc = before @ t # after"
    and "for_tasks w sc before (sh0', self0) = Inr (Continue, sh, self)"
    and "observe_running w sh = (True, sh1)"
    and "execute_task w t (sh1, take_credential self) = Inr (status, sh2, self2)"
    and "transitions sc = pre @ tr # post"
    and "\<forall>p\<in>set pre. \<not> condition p status"
    and "condition tr status"
    and "get_terminate tr"
  shows "run (Suc n) w cfg (sh0, self0) = Some (Inr (sh2, self2\<lparr>state := next_state tr\<rparr>)) \<and>
         sent sh2 = sent sh @ [request_of (task_store sh t) (heap sh2)]"
proof -
  have "task_body w sc t (sh, self) = Inr (Return, sh2, self2\<lparr>state := next_state tr\<rparr>)"
    using task_body_running [OF assms(5,6)] for_transitions_first [OF assms(8,9)] assms(7,10)
    by simp
  then have "for_tasks w sc (t # after) (sh, self) =
      Inr (Return, sh2, self2\<lparr>state := next_state tr\<rparr>)"
    by (simp add: for_tasks_step)
  then have "for_tasks w sc (tasks sc) (sh0', self0) =
      Inr (Return, sh2, self2\<lparr>state := next_state tr\<rparr>)"
    using assms(3,4) by (simp add: for_tasks_append)
  then have "run (Suc n) w cfg (sh0, self0) = Some (Inr (sh2, self2\<lparr>state := next_state tr\<rparr>))"
    using assms(1,2) by simp
  moreover have "sent sh2 = sent sh @ [request_of (task_store sh t) (heap sh2)]"
    using execute_task_Inr [OF assms(6)] observe_running_result [OF assms(5)] by simp
  ultimately show ?thesis by simp
qed

text \<open>
  The scenario graph with a refused request: the flagged transition to \<open>F\<close> is taken and
  the run returns with one record.
\<close>

theorem terminal_transition_ends_run_witness:
  "run 1 (answering (ClientError ''refused'') None) scenario_config
     (shared_init scenario_tasks no_dicts, StateMachine_init scenario_config []) =
   Some (Inr (\<lparr>task_store = scenario_tasks, heap = no_dicts,
               collector = \<lparr>running = True, all_metrics = []\<rparr>,
               sent = [\<lparr>r_method = GET, r_url = ''https://example.com/a'', r_data = None\<rparr>],
               clock_reads = 2, flag_reads = 2\<rparr>,
              \<lparr>credentials = [], current_credential = None, state = ''F'',
               metrics = [\<lparr>m_state = ''A'', m_task = ''a'', m_status = None,
                           m_response_time = 1, m_error = Some ''refused''\<rparr>]\<rparr>))"
proof -
  let ?W = "answering (ClientError ''refused'') None"
  let ?S = "shared_init scenario_tasks no_dicts"
  let ?M = "StateMachine_init scenario_config []"
  let ?p1 = "\<lparr>condition = (\<lambda>status. status = Some 200), next_state = ''B'', terminate = None\<rparr>"
  let ?p2 = "\<lparr>condition = (\<lambda>status. status \<noteq> Some 200), next_state = ''F'',
             terminate = Some True\<rparr>"
  let ?A = "\<lparr>tasks = [0], transitions = [?p1, ?p2]\<rparr>"
  let ?S2 = "\<lparr>task_store = scenario_tasks, heap = no_dicts,
               collector = \<lparr>running = True, all_metrics = []\<rparr>,
               sent = [\<lparr>r_method = GET, r_url = ''https://example.com/a'', r_data = None\<rparr>],
               clock_reads = 2, flag_reads = 2\<rparr>"
  let ?M2 = "\<lparr>credentials = [], current_credential = None, state = ''A'',
               metrics = [\<lparr>m_state = ''A'', m_task = ''a'', m_status = None,
                           m_response_time = 1, m_error = Some ''refused''\<rparr>]\<rparr>"
  have a1: "states scenario_config (state ?M) = Some ?A"
    by (simp add: scenario_config_def StateMachine_init_def)
  have a2: "observe_running ?W ?S = (True, ?S\<lparr>flag_reads := Suc 0\<rparr>)"
    by (simp add: model_defs)
  have a3: "tasks ?A = [] @ 0 # []" by simp
  have a4: "for_tasks ?W ?A [] (?S\<lparr>flag_reads := Suc 0\<rparr>, ?M) =
      Inr (Continue, ?S\<lparr>flag_reads := Suc 0\<rparr>, ?M)" by simp
  have a5: "observe_running ?W (?S\<lparr>flag_reads := Suc 0\<rparr>) =
      (True, ?S\<lparr>flag_reads := Suc (Suc 0)\<rparr>)"
    by (simp add: model_defs)
  have a6: "execute_task ?W 0 (?S\<lparr>flag_reads := Suc (Suc 0)\<rparr>, take_credential ?M) =
      Inr (None, ?S2, ?M2)"
    by (simp add: scenario_defs eval_nat_numeral)
  have a7: "transitions ?A = [?p1] @ ?p2 # []" by simp
  have a8: "\<forall>p\<in>set [?p1]. \<not> condition p None" by simp
  have a9: "condition ?p2 None" by simp
  have a10: "get_terminate ?p2" by (simp add: get_terminate_def)
  have "run (Suc 0) ?W scenario_config (?S, ?M) =
      Some (Inr (?S2, ?M2\<lparr>state := next_state ?p2\<rparr>))"
    using terminal_transition_ends_run [OF a1 a2 a3 a4 a5 a6 a7 a8 a9 a10, of 0] by simp
  then show ?thesis by simp
qed

section \<open>States without progress\<close>

lemma no_match_pass:
  assumes "for_tasks w sc ts (sh, self) = Inr (c, sh', self')"
    and "\<forall>m\<in>set (drop (length (metrics self)) (metrics self')).
           \<forall>tr\<in>set (transitions sc). \<not> condition tr (m_status m)"
  shows "state self' = state self \<and> c \<noteq> Return \<and>
         (running (collector sh') \<longrightarrow>
            c = Continue \<and> length (sent sh') = length (sent sh) + length ts \<and>
            length (metrics self') = length (metrics self) + length ts)"
  using assms
proof (induction ts arbitrary: sh self)
  case Nil
  then show ?case by simp
next
  case (Cons t ts)
  from Cons.prems(1) obtain c1 sh1 self1 where
    tb: "task_body w sc t (sh, self) = Inr (c1, sh1, self1)"
    by (auto simp: for_tasks_step split: sum.splits)
  from tb show ?case
  proof (cases rule: task_body_cases)
    case (stopped sh0)
    with Cons.prems(1) tb have "c = Break" "sh' = sh1" "self' = self"
      by (auto simp: for_tasks_step)
    moreover have "\<not> running (collector sh1)"
      using observe_running_result [OF stopped(1)] stopped(2) by simp
    ultimately show ?thesis by simp
  next
    case (raised sh0 x)
    then show ?thesis by simp
  next
    case (executed sh0 status sh2 self2 c2 self3)
    then have eq: "c2 = c1" "sh2 = sh1" "self3 = self1" by simp_all
    from execute_task_Inr [OF executed(2)] obtain m where
      m: "metrics self2 = metrics self @ [m]" "m_status m = status"
      and st2: "state self2 = state self"
      and sent1: "length (sent sh2) = Suc (length (sent sh0))"
      by (auto simp: take_credential_frame)
    have sent0: "sent sh0 = sent sh"
      using observe_running_result [OF executed(1)] by simp
    have met1: "metrics self1 = metrics self @ [m]"
      using for_transitions_frame [OF executed(3)] m eq by simp
    show ?thesis
    proof (cases "c1 = Continue")
      case True
      then have same: "self1 = self2"
        using for_transitions_Continue executed(3) eq by blast
      from True Cons.prems(1) tb have rest: "for_tasks w sc ts (sh1, self1) = Inr (c, sh', self')"
        by (simp add: for_tasks_step)
      from for_tasks_metrics_extend [OF rest] obtain new where
        new: "metrics self' = metrics self1 @ new" by blast
      have "\<forall>m\<in>set (drop (length (metrics self1)) (metrics self')).
              \<forall>tr\<in>set (transitions sc). \<not> condition tr (m_status m)"
        using Cons.prems(2) new met1 by simp
      from Cons.IH [OF rest this] show ?thesis
        using same st2 sent1 sent0 met1 eq by simp
    next
      case False
      with Cons.prems(1) tb have res: "c = c1" "sh' = sh1" "self' = self1"
        by (cases c1; simp)+
      from for_transitions_matched [OF executed(3)] False eq obtain tr where
        "tr \<in> set (transitions sc)" "condition tr status" by blast
      moreover have "m \<in> set (drop (length (metrics self)) (metrics self'))"
        using res met1 by simp
      ultimately show ?thesis using Cons.prems(2) m(2) by blast
    qed
  qed
qed

text \<open>
  Claim C5. Suppose the worker is in a state of the graph and, in a pass over that state's
  tasks, no transition's condition holds for the result of any task that is executed
  (the results are the statuses of the records the pass appends). Then the state is the
  same after the pass, the next round of the outer loop looks up the same state again,
  and, as long as the flag is still up at the end of the pass, every task of the list was
  executed once. The loop goes on like this until the flag is seen down at the top of a
  round, where the run returns.
\<close>

theorem no_progress_loop:
  assumes "states cfg (state self) = Some sc"
  shows "(observe_running w sh = (True, sh1) \<and>
          for_tasks w sc (tasks sc) (sh1, self) = Inr (c, sh', self') \<and>
          (\<forall>m\<in>set (drop (length (metrics self)) (metrics self')).
             \<forall>tr\<in>set (transitions sc). \<not> condition tr (m_status m)) \<longrightarrow>
          state self' = state self \<and> states cfg (state self') = Some sc \<and>
          run (Suc n) w cfg (sh, self) = run n w cfg (sh', self') \<and>
          (running (collector sh') \<longrightarrow>
             c = Continue \<and> length (sent sh') = length (sent sh) + length (tasks sc) \<and>
             length (metrics self') = length (metrics self) + length (tasks sc))) \<and>
         (observe_running w sh = (False, sh1) \<longrightarrow>
            run (Suc n) w cfg (sh, self) = Some (Inr (sh1, self)))"
proof (intro conjI impI)
  assume h: "observe_running w sh = (True, sh1) \<and>
          for_tasks w sc (tasks sc) (sh1, self) = Inr (c, sh', self') \<and>
          (\<forall>m\<in>set (drop (length (metrics self)) (metrics self')).
             \<forall>tr\<in>set (transitions sc). \<not> condition tr (m_status m))"
  then have pass: "for_tasks w sc (tasks sc) (sh1, self) = Inr (c, sh', self')" by simp
  from h have nm: "\<forall>m\<in>set (drop (length (metrics self)) (metrics self')).
             \<forall>tr\<in>set (transitions sc). \<not> condition tr (m_status m)" by simp
  note np = no_match_pass [OF pass nm]
  have sent1: "sent sh1 = sent sh"
    using h observe_running_result [of w sh True sh1] by simp
  show "state self' = state self" using np by simp
  then show "states cfg (state self') = Some sc" using assms by simp
  show "run (Suc n) w cfg (sh, self) = run n w cfg (sh', self')"
    using assms h np by (cases c) simp_all
  show "c = Continue" if "running (collector sh')" using np that by simp
  show "length (sent sh') = length (sent sh) + length (tasks sc)" if "running (collector sh')"
    using np that sent1 by simp
  show "length (metrics self') = length (metrics self) + length (tasks sc)"
    if "running (collector sh')"
    using np that by simp
next
  assume "observe_running w sh = (False, sh1)"
  then show "run (Suc n) w cfg (sh, self) = Some (Inr (sh1, self))"
    using assms by simp
qed

text \<open>
  The polling graph, the service answering 503, the interrupt arriving before the fifth
  read of the flag: the one task is executed twice in state \<open>POLL\<close> before the run returns.
\<close>

theorem no_progress_loop_witness:
  "for_tasks (answering (Response 503) (Some 4))
       \<lparr>tasks = [0], transitions = [\<lparr>condition = (\<lambda>status. status = Some 200),
          next_state = ''DONE'', terminate = Some True\<rparr>]\<rparr> [0]
       ((shared_init scenario_tasks no_dicts)\<lparr>flag_reads := 1\<rparr>,
        StateMachine_init polling_config []) =
   Inr (Continue,
        \<lparr>task_store = scenario_tasks, heap = no_dicts,
         collector = \<lparr>running = True, all_metrics = []\<rparr>,
         sent = [\<lparr>r_method = GET, r_url = ''https://example.com/a'', r_data = None\<rparr>],
         clock_reads = 2, flag_reads = 2\<rparr>,
        \<lparr>credentials = [], current_credential = None, state = ''POLL'',
         metrics = [\<lparr>m_state = ''POLL'', m_task = ''a'', m_status = Some 503,
                     m_response_time = 1, m_error = None\<rparr>]\<rparr>) \<and>
   run 3 (answering (Response 503) (Some 4)) polling_config
     (shared_init scenario_tasks no_dicts, StateMachine_init polling_config []) =
   Some (Inr (\<lparr>task_store = scenario_tasks, heap = no_dicts,
               collector = \<lparr>running = False, all_metrics = []\<rparr>,
               sent = [\<lparr>r_method = GET, r_url = ''https://example.com/a'', r_data = None\<rparr>,
                       \<lparr>r_method = GET, r_url = ''https://example.com/a'', r_data = None\<rparr>],
               clock_reads = 4, flag_reads = 5\<rparr>,
              \<lparr>credentials = [], current_credential = None, state = ''POLL'',
               metrics = [\<lparr>m_state = ''POLL'', m_task = ''a'', m_status = Some 503,
                           m_response_time = 1, m_error = None\<rparr>,
                          \<lparr>m_state = ''POLL'', m_task = ''a'', m_status = Some 503,
                           m_response_time = 1, m_error = None\<rparr>]\<rparr>))"
proof -
  let ?W = "answering (Response 503) (Some 4)"
  let ?S = "shared_init scenario_tasks no_dicts"
  let ?M = "StateMachine_init polling_config []"
  let ?P = "\<lparr>tasks = [0], transitions = [\<lparr>condition = (\<lambda>status. status = Some 200),
          next_state = ''DONE'', terminate = Some True\<rparr>]\<rparr>"
  let ?S1 = "\<lparr>task_store = scenario_tasks, heap = no_dicts,
         collector = \<lparr>running = True, all_metrics = []\<rparr>,
         sent = [\<lparr>r_method = GET, r_url = ''https://example.com/a'', r_data = None\<rparr>],
         clock_reads = 2, flag_reads = 2\<rparr>"
  let ?M1 = "\<lparr>credentials = [], current_credential = None, state = ''POLL'',
         metrics = [\<lparr>m_state = ''POLL'', m_task = ''a'', m_status = Some 503,
                     m_response_time = 1, m_error = None\<rparr>]\<rparr>"
  have a: "states polling_config (state ?M) = Some ?P"
    by (simp add: polling_config_def StateMachine_init_def)
  have o: "observe_running ?W ?S = (True, ?S\<lparr>flag_reads := 1\<rparr>)"
    by (simp add: model_defs)
  have f: "for_tasks ?W ?P (tasks ?P) (?S\<lparr>flag_reads := 1\<rparr>, ?M) = Inr (Continue, ?S1, ?M1)"
    by (simp add: model_defs scenario_tasks_def polling_config_def eval_nat_numeral)
  have nm: "\<forall>m\<in>set (drop (length (metrics ?M)) (metrics ?M1)).
      \<forall>tr\<in>set (transitions ?P). \<not> condition tr (m_status m)"
    by (simp add: StateMachine_init_def)
  have step: "state ?M1 = state ?M \<and>
      run (Suc 2) ?W polling_config (?S, ?M) = run 2 ?W polling_config (?S1, ?M1)"
    using no_progress_loop [OF a, of ?W ?S "?S\<lparr>flag_reads := 1\<rparr>" Continue ?S1 ?M1 2] o f nm
    by blast
  have two: "run 2 ?W polling_config (?S1, ?M1) =
   Some (Inr (\<lparr>task_store = scenario_tasks, heap = no_dicts,
               collector = \<lparr>running = False, all_metrics = []\<rparr>,
               sent = [\<lparr>r_method = GET, r_url = ''https://example.com/a'', r_data = None\<rparr>,
                       \<lparr>r_method = GET, r_url = ''https://example.com/a'', r_data = None\<rparr>],
               clock_reads = 4, flag_reads = 5\<rparr>,
              \<lparr>credentials = [], current_credential = None, state = ''POLL'',
               metrics = [\<lparr>m_state = ''POLL'', m_task = ''a'', m_status = Some 503,
                           m_response_time = 1, m_error = None\<rparr>,
                          \<lparr>m_state = ''POLL'', m_task = ''a'', m_status = Some 503,
                           m_response_time = 1, m_error = None\<rparr>]\<rparr>))"
    by (simp add: model_defs scenario_tasks_def polling_config_def eval_nat_numeral)
  have "run 3 ?W polling_config (?S, ?M) = run (Suc 2) ?W polling_config (?S, ?M)"
    by (simp only: numeral_3_eq_3 numeral_2_eq_2)
  also have "\<dots> = run 2 ?W polling_config (?S1, ?M1)" using step by blast
  finally have three: "run 3 ?W polling_config (?S, ?M) = run 2 ?W polling_config (?S1, ?M1)" .
  have f0: "for_tasks ?W ?P [0] (?S\<lparr>flag_reads := 1\<rparr>, ?M) = Inr (Continue, ?S1, ?M1)"
    using f by simp
  from f0 three two show ?thesis by (simp only:)
qed

section \<open>States without tasks\<close>

text \<open>
  A state of the graph with an empty task list gives the outer loop nothing to do, and
  nothing in the loop leaves it: while the flag stays up, the run does not return.
\<close>

lemma empty_state_spins:
  "states cfg (state self) = Some sc \<Longrightarrow> tasks sc = [] \<Longrightarrow> running (collector sh) \<Longrightarrow>
   \<forall>k. \<not> sigint w k \<Longrightarrow> run n w cfg (sh, self) = None"
proof (induction n arbitrary: sh)
  case 0
  then show ?case by simp
next
  case (Suc n)
  have "observe_running w sh = (True, sh\<lparr>flag_reads := Suc (flag_reads sh)\<rparr>)"
    using Suc.prems by (simp add: observe_running_go)
  then have "run (Suc n) w cfg (sh, self) = run n w cfg (sh\<lparr>flag_reads := Suc (flag_reads sh)\<rparr>, self)"
    using Suc.prems by simp
  also have "\<dots> = None"
    using Suc.prems by (intro Suc.IH) simp_all
  finally show ?case .
qed

lemma scenario_first_round:
  "run (Suc n) (answering (Response 200) None) scenario_config
     (shared_init scenario_tasks no_dicts, StateMachine_init scenario_config []) =
   run n (answering (Response 200) None) scenario_config
     (\<lparr>task_store = scenario_tasks, heap = no_dicts, collector = MetricsCollector_init,
       sent = [\<lparr>r_method = GET, r_url = ''https://example.com/a'', r_data = None\<rparr>],
       clock_reads = 2, flag_reads = 2\<rparr>,
      \<lparr>credentials = [], current_credential = None, state = ''B'',
       metrics = [\<lparr>m_state = ''A'', m_task = ''a'', m_status = Some 200, m_response_time = 1,
                   m_error = None\<rparr>]\<rparr>)"
  by (simp add: model_defs scenario_tasks_def scenario_config_def eval_nat_numeral)

text \<open>
  Claim C1. The specification takes a state with no tasks and no transitions to end the
  run, and expects the scenario graph, answered with 200 in \<open>A\<close>, to end in \<open>B\<close> with
  exactly one record of status 200 and no error. The code reaches \<open>B\<close> with exactly that
  record, but \<open>B\<close> is a state of the graph, so the loop's condition stays true and the run
  does not return for any number of rounds. It returns, in \<open>B\<close> with that one record, only
  once the flag has been taken down (here before the sixth read).
\<close>

theorem scenario_run_never_returns:
  "(\<forall>n. run n (answering (Response 200) None) scenario_config
          (shared_init scenario_tasks no_dicts, StateMachine_init scenario_config []) = None) \<and>
   run 7 (answering (Response 200) (Some 5)) scenario_config
          (shared_init scenario_tasks no_dicts, StateMachine_init scenario_config []) =
   Some (Inr (\<lparr>task_store = scenario_tasks, heap = no_dicts,
               collector = \<lparr>running = False, all_metrics = []\<rparr>,
               sent = [\<lparr>r_method = GET, r_url = ''https://example.com/a'', r_data = None\<rparr>],
               clock_reads = 2, flag_reads = 6\<rparr>,
              \<lparr>credentials = [], current_credential = None, state = ''B'',
               metrics = [\<lparr>m_state = ''A'', m_task = ''a'', m_status = Some 200,
                           m_response_time = 1, m_error = None\<rparr>]\<rparr>))"
proof -
  have "run n (answering (Response 200) None) scenario_config
          (shared_init scenario_tasks no_dicts, StateMachine_init scenario_config []) = None" for n
  proof (cases n)
    case 0
    then show ?thesis by simp
  next
    case (Suc m)
    show ?thesis
      unfolding Suc scenario_first_round
      by (rule empty_state_spins [where sc = "\<lparr>tasks = [], transitions = []\<rparr>"])
        (simp_all add: scenario_config_def answering_def MetricsCollector_init_def)
  qed
  moreover have "run 7 (answering (Response 200) (Some 5)) scenario_config
          (shared_init scenario_tasks no_dicts, StateMachine_init scenario_config []) =
   Some (Inr (\<lparr>task_store = scenario_tasks, heap = no_dicts,
               collector = \<lparr>running = False, all_metrics = []\<rparr>,
               sent = [\<lparr>r_method = GET, r_url = ''https://example.com/a'', r_data = None\<rparr>],
               clock_reads = 2, flag_reads = 6\<rparr>,
              \<lparr>credentials = [], current_credential = None, state = ''B'',
               metrics = [\<lparr>m_state = ''A'', m_task = ''a'', m_status = Some 200,
                           m_response_time = 1, m_error = None\<rparr>]\<rparr>))"
    by (simp add: model_defs scenario_tasks_def scenario_config_def eval_nat_numeral)
  ultimately show ?thesis by blast
qed

section \<open>States that the graph does not have\<close>

lemma population_replicate:
  "population cfg creds = replicate (length creds) (StateMachine_init cfg creds)"
  by (simp add: population_def map_replicate_const)

text \<open>
  Claim C10. A worker built from a configuration without the key \<^verbatim>\<open>initial_state\<close>
  starts in the state \<^verbatim>\<open>"INITIAL"\<close>. And a run that starts in a state that is not a key
  of the graph's states returns at once and leaves everything as it is: no request is
  sent, no record is appended, the queue of credentials is unchanged.
\<close>

theorem unknown_state_returns:
  "(initial_state cfg = None \<longrightarrow> state (StateMachine_init cfg creds) = ''INITIAL'') \<and>
   (states cfg (state self) = None \<longrightarrow> run (Suc n) w cfg (sh, self) = Some (Inr (sh, self)))"
  by (simp add: StateMachine_init_def)

text \<open>The scenario graph without an initial state: \<^verbatim>\<open>"INITIAL"\<close> is not one of its states.\<close>

theorem unknown_state_returns_witness:
  "initial_state (scenario_config\<lparr>initial_state := None\<rparr>) = None \<and>
   state (StateMachine_init (scenario_config\<lparr>initial_state := None\<rparr>) main_credentials) = ''INITIAL'' \<and>
   states (scenario_config\<lparr>initial_state := None\<rparr>) ''INITIAL'' = None \<and>
   run 1 (answering (Response 200) None) (scenario_config\<lparr>initial_state := None\<rparr>)
     (shared_init scenario_tasks main_heap,
      StateMachine_init (scenario_config\<lparr>initial_state := None\<rparr>) main_credentials) =
   Some (Inr (shared_init scenario_tasks main_heap,
         \<lparr>credentials = main_credentials, current_credential = None, state = ''INITIAL'',
          metrics = []\<rparr>))"
  using unknown_state_returns [of "scenario_config\<lparr>initial_state := None\<rparr>" main_credentials
      "StateMachine_init (scenario_config\<lparr>initial_state := None\<rparr>) main_credentials" 0
      "answering (Response 200) None" "shared_init scenario_tasks main_heap"]
  by (simp add: scenario_config_def StateMachine_init_def)

text \<open>
  Claim C9, as the code has it. Nothing checks the configuration when the program
  starts: for every configuration \<^verbatim>\<open>main\<close> builds one worker per credential, each in
  the configured initial state. A worker whose initial state is not in the graph returns
  from its run at once, and a worker that a transition has taken to a state that is not
  in the graph returns when the outer loop tests its condition next. Neither is an error.
\<close>

theorem inconsistency_tolerated:
  "population cfg creds = replicate (length creds) (StateMachine_init cfg creds) \<and>
   (states cfg (state (StateMachine_init cfg creds)) = None \<longrightarrow>
      run (Suc n) w cfg (sh, StateMachine_init cfg creds) =
        Some (Inr (sh, StateMachine_init cfg creds))) \<and>
   (states cfg (state self) = Some sc \<and> observe_running w sh = (True, sh1) \<and>
    for_tasks w sc (tasks sc) (sh1, self) = Inr (c, sh', self') \<and>
    states cfg (state self') = None \<longrightarrow>
      run (Suc (Suc n)) w cfg (sh, self) = Some (Inr (sh', self')))"
proof (intro conjI impI)
  show "population cfg creds = replicate (length creds) (StateMachine_init cfg creds)"
    by (rule population_replicate)
next
  assume "states cfg (state (StateMachine_init cfg creds)) = None"
  then show "run (Suc n) w cfg (sh, StateMachine_init cfg creds) =
      Some (Inr (sh, StateMachine_init cfg creds))" by simp
next
  assume h: "states cfg (state self) = Some sc \<and> observe_running w sh = (True, sh1) \<and>
    for_tasks w sc (tasks sc) (sh1, self) = Inr (c, sh', self') \<and>
    states cfg (state self') = None"
  then have "run (Suc n) w cfg (sh', self') = Some (Inr (sh', self'))" by simp
  with h show "run (Suc (Suc n)) w cfg (sh, self) = Some (Inr (sh', self'))"
    by (cases c) simp_all
qed

text \<open>
  The graph whose only transition names the missing state: three workers are built, and
  the run of one ends in the missing state, normally, after its one request.
\<close>

theorem inconsistency_tolerated_witness:
  "states dangling_config ''MISSING'' = None \<and>
   population dangling_config main_credentials =
     [StateMachine_init dangling_config main_credentials,
      StateMachine_init dangling_config main_credentials,
      StateMachine_init dangling_config main_credentials] \<and>
   run 2 (answering (Response 200) None) dangling_config
     (shared_init scenario_tasks main_heap, StateMachine_init dangling_config main_credentials) =
   Some (Inr (\<lparr>task_store = scenario_tasks, heap = main_heap,
               collector = \<lparr>running = True, all_metrics = []\<rparr>,
               sent = [\<lparr>r_method = GET, r_url = ''https://example.com/a'', r_data = None\<rparr>],
               clock_reads = 2, flag_reads = 2\<rparr>,
              \<lparr>credentials = main_credentials, current_credential = None, state = ''MISSING'',
               metrics = [\<lparr>m_state = ''A'', m_task = ''a'', m_status = Some 200,
                           m_response_time = 1, m_error = None\<rparr>]\<rparr>))"
proof -
  let ?W = "answering (Response 200) None"
  let ?S = "shared_init scenario_tasks main_heap"
  let ?M = "StateMachine_init dangling_config main_credentials"
  let ?A = "\<lparr>tasks = [0], transitions =
      [\<lparr>condition = (\<lambda>status. True), next_state = ''MISSING'', terminate = None\<rparr>]\<rparr>"
  let ?S1 = "\<lparr>task_store = scenario_tasks, heap = main_heap,
               collector = \<lparr>running = True, all_metrics = []\<rparr>,
               sent = [\<lparr>r_method = GET, r_url = ''https://example.com/a'', r_data = None\<rparr>],
               clock_reads = 2, flag_reads = 2\<rparr>"
  let ?M1 = "\<lparr>credentials = main_credentials, current_credential = None, state = ''MISSING'',
               metrics = [\<lparr>m_state = ''A'', m_task = ''a'', m_status = Some 200,
                           m_response_time = 1, m_error = None\<rparr>]\<rparr>"
  note t = inconsistency_tolerated [of dangling_config main_credentials 0 ?W ?S ?M ?A
      "?S\<lparr>flag_reads := 1\<rparr>" Break ?S1 ?M1]
  have a1: "states dangling_config (state ?M) = Some ?A"
    by (simp add: dangling_config_def StateMachine_init_def)
  have a2: "observe_running ?W ?S = (True, ?S\<lparr>flag_reads := 1\<rparr>)"
    by (simp add: model_defs)
  have a3: "for_tasks ?W ?A (tasks ?A) (?S\<lparr>flag_reads := 1\<rparr>, ?M) = Inr (Break, ?S1, ?M1)"
    by (simp add: model_defs scenario_tasks_def dangling_config_def main_credentials_def
        eval_nat_numeral)
  have a4: "states dangling_config (state ?M1) = None"
    by (simp add: dangling_config_def)
  have r: "run (Suc (Suc 0)) ?W dangling_config (?S, ?M) = Some (Inr (?S1, ?M1))"
    using t a1 a2 a3 a4 by blast
  have p: "population dangling_config main_credentials =
      replicate (length main_credentials) ?M"
    using t by blast
  from r p a4 show ?thesis
    by (simp add: main_credentials_def eval_nat_numeral)
qed

text \<open>
  The claim as the specification states it, that an inconsistent configuration makes the
  program fail before a worker is launched, does not hold: both configurations below are
  inconsistent, the workers are built, and their runs return normally.
\<close>

theorem inconsistent_config_is_run:
  "\<not> spec_consistent dangling_config \<and>
   \<not> spec_consistent (scenario_config\<lparr>initial_state := Some ''START''\<rparr>) \<and>
   length (population dangling_config main_credentials) = 3 \<and>
   run 2 (answering (Response 200) None) dangling_config
     (shared_init scenario_tasks main_heap, StateMachine_init dangling_config main_credentials) =
   Some (Inr (\<lparr>task_store = scenario_tasks, heap = main_heap,
               collector = \<lparr>running = True, all_metrics = []\<rparr>,
               sent = [\<lparr>r_method = GET, r_url = ''https://example.com/a'', r_data = None\<rparr>],
               clock_reads = 2, flag_reads = 2\<rparr>,
              \<lparr>credentials = main_credentials, current_credential = None, state = ''MISSING'',
               metrics = [\<lparr>m_state = ''A'', m_task = ''a'', m_status = Some 200,
                           m_response_time = 1, m_error = None\<rparr>]\<rparr>)) \<and>
   run 1 (answering (Response 200) None) (scenario_config\<lparr>initial_state := Some ''START''\<rparr>)
     (shared_init scenario_tasks main_heap,
      StateMachine_init (scenario_config\<lparr>initial_state := Some ''START''\<rparr>) main_credentials) =
   Some (Inr (shared_init scenario_tasks main_heap,
      StateMachine_init (scenario_config\<lparr>initial_state := Some ''START''\<rparr>) main_credentials))"
proof -
  have "\<not> spec_consistent dangling_config"
    by (simp add: spec_consistent_def dangling_config_def)
  moreover have "\<not> spec_consistent (scenario_config\<lparr>initial_state := Some ''START''\<rparr>)"
    by (simp add: spec_consistent_def scenario_config_def)
  moreover have "length (population dangling_config main_credentials) = 3"
    by (simp add: population_def main_credentials_def)
  moreover have "run 2 (answering (Response 200) None) dangling_config
     (shared_init scenario_tasks main_heap, StateMachine_init dangling_config main_credentials) =
   Some (Inr (\<lparr>task_store = scenario_tasks, heap = main_heap,
               collector = \<lparr>running = True, all_metrics = []\<rparr>,
               sent = [\<lparr>r_method = GET, r_url = ''https://example.com/a'', r_data = None\<rparr>],
               clock_reads = 2, flag_reads = 2\<rparr>,
              \<lparr>credentials = main_credentials, current_credential = None, state = ''MISSING'',
               metrics = [\<lparr>m_state = ''A'', m_task = ''a'', m_status = Some 200,
                           m_response_time = 1, m_error = None\<rparr>]\<rparr>))"
    by (simp add: model_defs scenario_tasks_def dangling_config_def main_credentials_def
        eval_nat_numeral)
  moreover have "run 1 (answering (Response 200) None) (scenario_config\<lparr>initial_state := Some ''START''\<rparr>)
     (shared_init scenario_tasks main_heap,
      StateMachine_init (scenario_config\<lparr>initial_state := Some ''START''\<rparr>) main_credentials) =
   Some (Inr (shared_init scenario_tasks main_heap,
      StateMachine_init (scenario_config\<lparr>initial_state := Some ''START''\<rparr>) main_credentials))"
    by (simp add: scenario_config_def StateMachine_init_def)
  ultimately show ?thesis by blast
qed

section \<open>Credentials\<close>

text \<open>
  Claim C8. In the state \<^verbatim>\<open>"LOGIN"\<close> with a non-empty queue, and the flag up, the body of the
  loop pops the front credential before the task is executed: afterwards the queue is
  the rest and the popped credential is the current one, whether the request is answered
  or raises. Exactly one request has been made, with the task's verb and URL. When the
  task declares a body, the request carries it merged with the credential: every key of
  the credential has the credential's value, every other key has the value that the body
  had, and the keys stay distinct; the task's body itself is that dictionary now. When
  the task declares no body, the request has none.
\<close>

theorem login_takes_credential:
  assumes "state self = ''LOGIN''"
    and "credentials self = cr # rest"
    and "observe_running w sh = (True, sh1)"
    and "task_body w sc t (sh, self) = R"
    and "R = Inr (c, sh', self') \<or> R = Inl (e, sh', self')"
  shows "credentials self' = rest \<and> current_credential self' = Some cr \<and>
         (\<exists>req. sent sh' = sent sh @ [req] \<and>
            r_method req = http_method (task_store sh t) \<and> r_url req = url (task_store sh t) \<and>
            (\<forall>p d. params (task_store sh t) = Some p \<and> data p = Some d \<longrightarrow>
               r_data req = Some (heap sh' d) \<and>
               (\<forall>k. map_of (heap sh' d) k =
                      (case map_of (rev (heap sh cr)) k of
                         Some v \<Rightarrow> Some v
                       | None \<Rightarrow> map_of (heap sh d) k)) \<and>
               (distinct (map fst (heap sh d)) \<longrightarrow> distinct (map fst (heap sh' d)))) \<and>
            (params (task_store sh t) = None \<or>
             (\<exists>p. params (task_store sh t) = Some p \<and> data p = None) \<longrightarrow> r_data req = None))"
proof -
  let ?self1 = "self\<lparr>current_credential := Some cr, credentials := rest\<rparr>"
  have tc: "take_credential self = ?self1"
    using assms(1,2) by (simp add: take_credential_def)
  note o = observe_running_result [OF assms(3)]
  have core: "credentials self' = rest \<and> current_credential self' = Some cr \<and>
      heap sh' = merge_credential ?self1 (task_store sh t) (heap sh) \<and>
      sent sh' = sent sh @ [request_of (task_store sh t) (heap sh')]"
    using assms(4)
  proof (cases rule: task_body_cases)
    case (stopped sh0)
    with assms(3) show ?thesis by simp
  next
    case (raised sh0 x)
    with assms(3,5) have "execute_task w t (sh1, ?self1) = Inl (e, sh', self')"
      by (auto simp: tc)
    from execute_task_Inl [OF this] o show ?thesis by simp
  next
    case (executed sh0 status sh2 self2 c2 self3)
    with assms(3,5) have ex: "execute_task w t (sh1, ?self1) = Inr (status, sh2, self2)"
      and eq: "sh' = sh2" "self' = self3"
      by (auto simp: tc)
    from execute_task_Inr [OF ex] for_transitions_frame [OF executed(3)] o eq
    show ?thesis by simp
  qed
  let ?req = "request_of (task_store sh t) (heap sh')"
  have body: "r_data ?req = Some (heap sh' d) \<and>
               (\<forall>k. map_of (heap sh' d) k =
                      (case map_of (rev (heap sh cr)) k of
                         Some v \<Rightarrow> Some v
                       | None \<Rightarrow> map_of (heap sh d) k)) \<and>
               (distinct (map fst (heap sh d)) \<longrightarrow> distinct (map fst (heap sh' d)))"
    if "params (task_store sh t) = Some p \<and> data p = Some d" for p d
  proof -
    have "heap sh' d = dict_update (heap sh d) (heap sh cr)"
      using core that merge_credential_body [of ?self1 cr "task_store sh t" p d "heap sh"]
      by simp
    then show ?thesis
      using that by (simp add: request_of_def dict_update_map_of dict_update_distinct)
  qed
  have nobody: "r_data ?req = None"
    if "params (task_store sh t) = None \<or>
             (\<exists>p. params (task_store sh t) = Some p \<and> data p = None)"
    using that by (auto simp: request_of_def)
  have "r_method ?req = http_method (task_store sh t) \<and> r_url ?req = url (task_store sh t)"
    by (simp add: request_of_def)
  with core body nobody show ?thesis by blast
qed

text \<open>
  The login form: the key that only the body has keeps its value, the key that both have
  gets the credential's.
\<close>

theorem login_takes_credential_witness:
  "task_body (answering (Response 200) None) \<lparr>tasks = [0], transitions = []\<rparr> 0
     (shared_init form_tasks form_heap, StateMachine_init main_config [1]) =
   Inr (Continue,
        \<lparr>task_store = form_tasks,
         heap = form_heap(0 := [(''grant'', ''password''), (''username'', ''user1''),
                                (''password'', ''pass1'')]),
         collector = MetricsCollector_init,
         sent = [\<lparr>r_method = POST, r_url = ''https://example.com/login'',
                  r_data = Some [(''grant'', ''password''), (''username'', ''user1''),
                                 (''password'', ''pass1'')]\<rparr>],
         clock_reads = 2, flag_reads = 1\<rparr>,
        \<lparr>credentials = [], current_credential = Some 1, state = ''LOGIN'',
         metrics = [\<lparr>m_state = ''LOGIN'', m_task = ''login'', m_status = Some 200,
                     m_response_time = 1, m_error = None\<rparr>]\<rparr>) \<and>
   map_of [(''grant'', ''password''), (''username'', ''user1''), (''password'', ''pass1'')]
     ''grant'' = map_of (form_heap 0) ''grant'' \<and>
   map_of [(''grant'', ''password''), (''username'', ''user1''), (''password'', ''pass1'')]
     ''username'' = map_of (form_heap 1) ''username''"
proof -
  let ?W = "answering (Response 200) None"
  let ?S = "shared_init form_tasks form_heap"
  let ?M = "StateMachine_init main_config [1]"
  let ?body = "[(''grant'', ''password''), (''username'', ''user1''), (''password'', ''pass1'')]"
  let ?S' = "\<lparr>task_store = form_tasks, heap = form_heap(0 := ?body),
         collector = MetricsCollector_init,
         sent = [\<lparr>r_method = POST, r_url = ''https://example.com/login'',
                  r_data = Some ?body\<rparr>],
         clock_reads = 2, flag_reads = 1\<rparr>"
  let ?M' = "\<lparr>credentials = [], current_credential = Some 1, state = ''LOGIN'',
         metrics = [\<lparr>m_state = ''LOGIN'', m_task = ''login'', m_status = Some 200,
                     m_response_time = 1, m_error = None\<rparr>]\<rparr>"
  have a1: "state ?M = ''LOGIN''"
    by (simp add: StateMachine_init_def main_config_def)
  have a2: "credentials ?M = 1 # []"
    by (simp add: StateMachine_init_def)
  have a3: "observe_running ?W ?S = (True, ?S\<lparr>flag_reads := 1\<rparr>)"
    by (simp add: model_defs)
  have a4: "task_body ?W \<lparr>tasks = [0], transitions = []\<rparr> 0 (?S, ?M) = Inr (Continue, ?S', ?M')"
    by (simp add: model_defs form_tasks_def form_heap_def main_config_def eval_nat_numeral)
  have a5: "Inr (Continue, ?S', ?M') = Inr (Continue, ?S', ?M') \<or>
      Inr (Continue, ?S', ?M') = Inl (undefined, ?S', ?M')" by simp
  note t = login_takes_credential [OF a1 a2 a3 a4 a5]
  have p: "params (task_store ?S 0) = Some \<lparr>data = Some 0\<rparr> \<and> data \<lparr>data = Some 0\<rparr> = Some 0"
    by (simp add: shared_init_def form_tasks_def)
  from t p have look: "\<forall>k. map_of (heap ?S' 0) k =
      (case map_of (rev (heap ?S 1)) k of Some v \<Rightarrow> Some v | None \<Rightarrow> map_of (heap ?S 0) k)"
    by blast
  have "map_of ?body ''grant'' = map_of (form_heap 0) ''grant''"
    using look [rule_format, of "''grant''"] by (simp add: shared_init_def form_heap_def)
  moreover have "map_of ?body ''username'' = map_of (form_heap 1) ''username''"
    using look [rule_format, of "''username''"] by (simp add: shared_init_def form_heap_def)
  ultimately show ?thesis using a4 by simp
qed

section \<open>What executing tasks changes\<close>





section \<open>Harvesting\<close>











text \<open>
  \<^verbatim>\<open>main\<close>'s configuration with its three credentials. When the second login is answered
  with 500, the round is harvested with the first worker still waiting; when it times
  out, \<^verbatim>\<open>main\<close> raises and the record of the first worker is not collected.
\<close>

lemmas main_defs =
  main_round_def population_replicate next_request_def harvest_def add_metrics_def
  spec_harvest_finished_def List.map_filter_def
  main_tasks_def main_heap_def main_config_def main_credentials_def



text \<open>
  Two rounds: the first worker finishes after its round's harvest and the third gets its
  answer then. Five records have been made, three are in the collector.
\<close>

lemma straggler_records_are_lost:
  "(case main_loop 2 (scripted [Response 200, Response 500, Response 200, Response 500, Response 200,
            Response 500])
          main_config main_credentials [([], [0, 1]), ([0, 2], [3])] (shared_init main_tasks main_heap, []) of
      Some (Inr (sh', live')) \<Rightarrow>
        map (\<lambda>p. length (metrics (machine p))) live' = [2, 1, 1, 1, 0, 0] \<and>
        map is_done live' = [True, True, False, True, False, False] \<and>
        length (all_metrics (collector sh')) = 3
    | _ \<Rightarrow> False)"
  by (simp add: model_defs main_defs eval_nat_numeral)

end
